theory Spec2Isabelle
  imports Complex_Main "HOL-Library.Sublist"
begin

section \<open>Python values\<close>

text \<open>
  The delta engine of \<^verbatim>\<open>scripts/pr_score_delta.py\<close> works on what \<^verbatim>\<open>json.load\<close> returns:
  \<^verbatim>\<open>None\<close>, booleans, unbounded integers, floats, strings, lists and dicts. Every
  exception the script can meet is a value of \<open>error\<close>, and a computation that may raise
  has a result of type \<open>error + 'a\<close> with \<open>Inl\<close> for the exception.
\<close>

datatype error = AttributeError | TypeError | KeyError | ValueError | OverflowError
  | ZeroDivisionError | JSONDecodeError | OSError

definition and_then :: "error + 'a \<Rightarrow> ('a \<Rightarrow> error + 'b) \<Rightarrow> error + 'b" where
  "and_then r f = (case r of Inl e \<Rightarrow> Inl e | Inr v \<Rightarrow> f v)"

subsection \<open>Floats\<close>

text \<open>
  A Python float is an IEEE 754 binary64 number. A finite one is kept as its sign and its
  magnitude, an exact rational (so that \<open>FFin True 0\<close> is \<^verbatim>\<open>-0.0\<close>); the other values are
  the two infinities and the one NaN that \<^verbatim>\<open>json\<close> produces. Every arithmetic result is the
  exact result rounded by \<open>fl_round\<close>: to the nearest number with a 53 bit significand and
  an exponent of at least \<open>-1074\<close>, ties to the even significand, and to infinity from
  \<open>2 ^ 1024\<close> on.
\<close>

datatype pyfloat = FFin bool rat | FInf bool | FNaN

fun nbits :: "nat \<Rightarrow> nat" where
  "nbits n = (if n = 0 then 0 else Suc (nbits (n div 2)))"

declare nbits.simps [simp del]

definition ilog2 :: "rat \<Rightarrow> int" where
  \<comment> \<open>\<open>\<lfloor>log\<^sub>2 r\<rfloor>\<close> for \<open>0 < r\<close>\<close>
  "ilog2 r = (if 1 \<le> r then int (nbits (nat \<lfloor>r\<rfloor>)) - 1
              else - int (nbits (nat (\<lceil>1 / r\<rceil> - 1))))"

definition pow2 :: "int \<Rightarrow> rat" where
  "pow2 e = (if 0 \<le> e then 2 ^ nat e else 1 / 2 ^ nat (- e))"

definition round_half_even :: "rat \<Rightarrow> int" where
  "round_half_even r =
     (let f = \<lfloor>r\<rfloor>; d = r - of_int f
      in if d < 1 / 2 then f else if 1 / 2 < d then f + 1 else if even f then f else f + 1)"

definition fl_round :: "bool \<Rightarrow> rat \<Rightarrow> pyfloat" where
  "fl_round s r =
     (if r = 0 then FFin s 0
      else let e = max (ilog2 r - 52) (- 1074);
               v = of_int (round_half_even (r / pow2 e)) * pow2 e
           in if 2 ^ 1024 \<le> v then FInf s else FFin s v)"

fun fl_neg :: "pyfloat \<Rightarrow> pyfloat" where
  "fl_neg (FFin s a) = FFin (\<not> s) a"
| "fl_neg (FInf s) = FInf (\<not> s)"
| "fl_neg FNaN = FNaN"

fun fl_add :: "pyfloat \<Rightarrow> pyfloat \<Rightarrow> pyfloat" where
  "fl_add FNaN y = FNaN"
| "fl_add x FNaN = FNaN"
| "fl_add (FInf s) (FInf t) = (if s = t then FInf s else FNaN)"
| "fl_add (FInf s) (FFin t b) = FInf s"
| "fl_add (FFin s a) (FInf t) = FInf t"
| "fl_add (FFin s a) (FFin t b) =
     (if s = t then fl_round s (a + b)
      else if b < a then fl_round s (a - b)
      else if a < b then fl_round t (b - a)
      else FFin False 0)"

definition fl_sub :: "pyfloat \<Rightarrow> pyfloat \<Rightarrow> pyfloat" where
  "fl_sub x y = fl_add x (fl_neg y)"

fun fl_mul :: "pyfloat \<Rightarrow> pyfloat \<Rightarrow> pyfloat" where
  "fl_mul FNaN y = FNaN"
| "fl_mul x FNaN = FNaN"
| "fl_mul (FInf s) (FInf t) = FInf (s \<noteq> t)"
| "fl_mul (FInf s) (FFin t b) = (if b = 0 then FNaN else FInf (s \<noteq> t))"
| "fl_mul (FFin s a) (FInf t) = (if a = 0 then FNaN else FInf (s \<noteq> t))"
| "fl_mul (FFin s a) (FFin t b) = fl_round (s \<noteq> t) (a * b)"

fun fl_div :: "pyfloat \<Rightarrow> pyfloat \<Rightarrow> pyfloat" where
  \<comment> \<open>the divisor is not a zero: Python raises before it divides\<close>
  "fl_div FNaN y = FNaN"
| "fl_div x FNaN = FNaN"
| "fl_div (FInf s) (FInf t) = FNaN"
| "fl_div (FInf s) (FFin t b) = FInf (s \<noteq> t)"
| "fl_div (FFin s a) (FInf t) = FFin (s \<noteq> t) 0"
| "fl_div (FFin s a) (FFin t b) = fl_round (s \<noteq> t) (a / b)"

fun fl_is_zero :: "pyfloat \<Rightarrow> bool" where
  "fl_is_zero (FFin s a) = (a = 0)"
| "fl_is_zero x = False"

fun fl_gt0 :: "pyfloat \<Rightarrow> bool" where
  "fl_gt0 (FFin s a) = (\<not> s \<and> 0 < a)"
| "fl_gt0 (FInf s) = (\<not> s)"
| "fl_gt0 FNaN = False"

fun fl_lt0 :: "pyfloat \<Rightarrow> bool" where
  "fl_lt0 (FFin s a) = (s \<and> 0 < a)"
| "fl_lt0 (FInf s) = s"
| "fl_lt0 FNaN = False"

definition fl_val :: "bool \<Rightarrow> rat \<Rightarrow> rat" where
  "fl_val s a = (if s then - a else a)"

fun fl_eq :: "pyfloat \<Rightarrow> pyfloat \<Rightarrow> bool" where
  "fl_eq (FFin s a) (FFin t b) = (fl_val s a = fl_val t b)"
| "fl_eq (FInf s) (FInf t) = (s = t)"
| "fl_eq x y = False"

fun fl_eq_int :: "pyfloat \<Rightarrow> int \<Rightarrow> bool" where
  "fl_eq_int (FFin s a) n = (fl_val s a = of_int n)"
| "fl_eq_int x n = False"

definition int_to_float :: "int \<Rightarrow> error + pyfloat" where
  \<comment> \<open>\<^verbatim>\<open>float(n)\<close>: correctly rounded, OverflowError when out of range\<close>
  "int_to_float n =
     (case fl_round (n < 0) (of_int \<bar>n\<bar>) of FInf s \<Rightarrow> Inl OverflowError | f \<Rightarrow> Inr f)"

definition round1_float :: "pyfloat \<Rightarrow> error + pyfloat" where
  \<comment> \<open>\<^verbatim>\<open>round(x, 1)\<close> on a float: the exact value rounded half-even to one decimal, the
      decimal converted back to the nearest float; the sign of a zero is kept\<close>
  "round1_float x =
     (case x of
        FFin s a \<Rightarrow>
          (case fl_round s (of_int (round_half_even (a * 10)) / 10) of
             FInf t \<Rightarrow> Inl OverflowError
           | f \<Rightarrow> Inr f)
      | other \<Rightarrow> Inr other)"

subsection \<open>JSON values and the operators the script applies to them\<close>

datatype json = JNull | JBool bool | JInt int | JFloat pyfloat | JStr string
  | JArr "json list" | JObj "(string \<times> json) list"

text \<open>
  \<open>JObj\<close> holds the items of a dict in insertion order, each key once. Booleans are
  integers for arithmetic, as \<^verbatim>\<open>bool\<close> is a subclass of \<^verbatim>\<open>int\<close>.
\<close>

datatype num = NInt int | NFloat pyfloat

fun as_num :: "json \<Rightarrow> num option" where
  "as_num (JBool b) = Some (NInt (if b then 1 else 0))"
| "as_num (JInt n) = Some (NInt n)"
| "as_num (JFloat f) = Some (NFloat f)"
| "as_num v = None"

fun to_float :: "num \<Rightarrow> error + pyfloat" where
  "to_float (NInt n) = int_to_float n"
| "to_float (NFloat f) = Inr f"

fun num_sub :: "num \<Rightarrow> num \<Rightarrow> error + json" where
  "num_sub (NInt m) (NInt n) = Inr (JInt (m - n))"
| "num_sub x y =
     and_then (to_float x) (\<lambda>f. and_then (to_float y) (\<lambda>g. Inr (JFloat (fl_sub f g))))"

definition py_sub :: "json \<Rightarrow> json \<Rightarrow> error + json" where
  \<comment> \<open>\<^verbatim>\<open>a - b\<close>\<close>
  "py_sub a b =
     (case (as_num a, as_num b) of
        (Some x, Some y) \<Rightarrow> num_sub x y
      | other \<Rightarrow> Inl TypeError)"

fun num_truediv :: "num \<Rightarrow> num \<Rightarrow> error + pyfloat" where
  "num_truediv (NInt m) (NInt n) =
     (if n = 0 then Inl ZeroDivisionError
      else case fl_round ((m < 0) \<noteq> (n < 0)) (of_int \<bar>m\<bar> / of_int \<bar>n\<bar>) of
             FInf s \<Rightarrow> Inl OverflowError
           | f \<Rightarrow> Inr f)"
| "num_truediv x y =
     and_then (to_float x) (\<lambda>f. and_then (to_float y) (\<lambda>g.
       if fl_is_zero g then Inl ZeroDivisionError else Inr (fl_div f g)))"

definition py_truediv :: "json \<Rightarrow> json \<Rightarrow> error + pyfloat" where
  \<comment> \<open>\<^verbatim>\<open>a / b\<close>: always a float\<close>
  "py_truediv a b =
     (case (as_num a, as_num b) of
        (Some x, Some y) \<Rightarrow> num_truediv x y
      | other \<Rightarrow> Inl TypeError)"

definition py_round1 :: "json \<Rightarrow> error + json" where
  \<comment> \<open>\<^verbatim>\<open>round(x, 1)\<close>: an integer (or boolean) gives that integer\<close>
  "py_round1 x =
     (case as_num x of
        Some (NInt n) \<Rightarrow> Inr (JInt n)
      | Some (NFloat f) \<Rightarrow> and_then (round1_float f) (\<lambda>g. Inr (JFloat g))
      | None \<Rightarrow> Inl TypeError)"

definition py_gt0 :: "json \<Rightarrow> error + bool" where
  \<comment> \<open>\<^verbatim>\<open>x > 0\<close>\<close>
  "py_gt0 x =
     (case as_num x of
        Some (NInt n) \<Rightarrow> Inr (0 < n)
      | Some (NFloat f) \<Rightarrow> Inr (fl_gt0 f)
      | None \<Rightarrow> Inl TypeError)"

definition py_lt0 :: "json \<Rightarrow> error + bool" where
  \<comment> \<open>\<^verbatim>\<open>x < 0\<close>\<close>
  "py_lt0 x =
     (case as_num x of
        Some (NInt n) \<Rightarrow> Inr (n < 0)
      | Some (NFloat f) \<Rightarrow> Inr (fl_lt0 f)
      | None \<Rightarrow> Inl TypeError)"

fun py_truthy :: "json \<Rightarrow> bool" where
  "py_truthy JNull = False"
| "py_truthy (JBool b) = b"
| "py_truthy (JInt n) = (n \<noteq> 0)"
| "py_truthy (JFloat f) = (\<not> fl_is_zero f)"
| "py_truthy (JStr s) = (s \<noteq> [])"
| "py_truthy (JArr xs) = (xs \<noteq> [])"
| "py_truthy (JObj kvs) = (kvs \<noteq> [])"

definition dict_get :: "(string \<times> json) list \<Rightarrow> string \<Rightarrow> json \<Rightarrow> json" where
  "dict_get kvs k dflt = (case map_of kvs k of Some v \<Rightarrow> v | None \<Rightarrow> dflt)"

fun py_get :: "json \<Rightarrow> string \<Rightarrow> json \<Rightarrow> error + json" where
  \<comment> \<open>\<^verbatim>\<open>x.get(k, dflt)\<close>: only a dict has the method\<close>
  "py_get (JObj kvs) k dflt = Inr (dict_get kvs k dflt)"
| "py_get x k dflt = Inl AttributeError"

fun py_iter :: "json \<Rightarrow> error + json list" where
  \<comment> \<open>what a \<^verbatim>\<open>for\<close> loop runs over: a dict gives its keys, a string its characters\<close>
  "py_iter (JArr xs) = Inr xs"
| "py_iter (JObj kvs) = Inr (map (\<lambda>kv. JStr (fst kv)) kvs)"
| "py_iter (JStr s) = Inr (map (\<lambda>c. JStr [c]) s)"
| "py_iter x = Inl TypeError"

subsection \<open>Text\<close>

fun dec :: "nat \<Rightarrow> string" where
  "dec n = (if n < 10 then [''0123456789'' ! n]
            else dec (n div 10) @ [''0123456789'' ! (n mod 10)])"

declare dec.simps [simp del]

definition str_int :: "int \<Rightarrow> string" where
  "str_int n = (if n < 0 then ''-'' @ dec (nat (- n)) else dec (nat n))"

text \<open>
  The interpreter does not convert an integer of more than 4300 decimal digits to text
  (its default limit): \<^verbatim>\<open>str\<close>, an f-string field, the format code \<^verbatim>\<open>d\<close> and
  \<^verbatim>\<open>json.dumps\<close> raise ValueError on such an integer, also when it stands inside a list
  or a dict that is converted.
\<close>

definition max_str_digits :: nat where
  "max_str_digits = 4300"

definition int_fits :: "int \<Rightarrow> bool" where
  "int_fits n \<longleftrightarrow> \<bar>n\<bar> < 10 ^ max_str_digits"

fun digits_ok :: "json \<Rightarrow> bool" where
  "digits_ok (JInt n) = int_fits n"
| "digits_ok (JArr xs) = list_all digits_ok xs"
| "digits_ok (JObj kvs) = list_all (\<lambda>kv. digits_ok (snd kv)) kvs"
| "digits_ok v = True"

text \<open>
  \<^verbatim>\<open>str(x)\<close>, which is also what an f-string field without a format gives. The text of a
  float, a list or a dict is the interpreter's \<^verbatim>\<open>repr\<close>; it is not reproduced here but taken
  as the parameter \<open>rp\<close>, so that every statement below holds whatever that text is.
\<close>

fun str_text :: "(json \<Rightarrow> string) \<Rightarrow> json \<Rightarrow> string" where
  "str_text rp (JStr s) = s"
| "str_text rp (JInt n) = str_int n"
| "str_text rp (JBool b) = (if b then ''True'' else ''False'')"
| "str_text rp JNull = ''None''"
| "str_text rp x = rp x"

definition py_str :: "(json \<Rightarrow> string) \<Rightarrow> json \<Rightarrow> error + string" where
  "py_str rp x = (if digits_ok x then Inr (str_text rp x) else Inl ValueError)"

definition sign_str :: "bool \<Rightarrow> bool \<Rightarrow> string" where
  "sign_str signed neg = (if neg then ''-'' else if signed then ''+'' else [])"

fun fmt_float1 :: "bool \<Rightarrow> pyfloat \<Rightarrow> string" where
  \<comment> \<open>the format codes \<^verbatim>\<open>.1f\<close> and (when \<open>signed\<close>) \<^verbatim>\<open>+.1f\<close> on a float\<close>
  "fmt_float1 signed (FFin s a) =
     (let n = nat (round_half_even (a * 10))
      in sign_str signed s @ dec (n div 10) @ ''.'' @ dec (n mod 10))"
| "fmt_float1 signed (FInf s) = sign_str signed s @ ''inf''"
| "fmt_float1 signed FNaN = sign_str signed False @ ''nan''"

definition fmt_f1 :: "bool \<Rightarrow> json \<Rightarrow> error + string" where
  \<comment> \<open>\<^verbatim>\<open>{x:.1f}\<close> and \<^verbatim>\<open>{x:+.1f}\<close>: an integer is converted to a float first\<close>
  "fmt_f1 signed x =
     (case as_num x of
        Some n \<Rightarrow> and_then (to_float n) (\<lambda>f. Inr (fmt_float1 signed f))
      | None \<Rightarrow> (case x of JStr s \<Rightarrow> Inl ValueError | other \<Rightarrow> Inl TypeError))"

definition fmt_plus_d :: "json \<Rightarrow> error + string" where
  \<comment> \<open>\<^verbatim>\<open>{x:+d}\<close>: integers only, of at most 4300 digits\<close>
  "fmt_plus_d x =
     (case as_num x of
        Some (NInt n) \<Rightarrow>
          if int_fits n then Inr (sign_str True (n < 0) @ dec (nat \<bar>n\<bar>))
          else Inl ValueError
      | Some (NFloat f) \<Rightarrow> Inl ValueError
      | None \<Rightarrow> (case x of JStr s \<Rightarrow> Inl ValueError | other \<Rightarrow> Inl TypeError))"

subsection \<open>Equality\<close>

text \<open>
  \<^verbatim>\<open>a == b\<close>. Numbers compare by value across \<^verbatim>\<open>bool\<close>, \<^verbatim>\<open>int\<close> and \<^verbatim>\<open>float\<close>, and NaN
  differs from itself. Inside a list or a dict the items are first compared by identity;
  \<^verbatim>\<open>json\<close> hands out one NaN object, so there (\<open>same = True\<close>) NaN equals NaN.
\<close>

fun num_eq :: "num \<Rightarrow> num \<Rightarrow> bool" where
  "num_eq (NInt m) (NInt n) = (m = n)"
| "num_eq (NInt m) (NFloat g) = fl_eq_int g m"
| "num_eq (NFloat f) (NInt n) = fl_eq_int f n"
| "num_eq (NFloat f) (NFloat g) = fl_eq f g"

fun py_eq :: "bool \<Rightarrow> json \<Rightarrow> json \<Rightarrow> bool" where
  "py_eq same (JArr xs) (JArr ys) = list_all2 (\<lambda>x y. py_eq True x y) xs ys"
| "py_eq same (JObj a) (JObj b) =
     (length a = length b \<and>
      (\<forall>kv \<in> set a. case map_of b (fst kv) of
                        None \<Rightarrow> False
                      | Some w \<Rightarrow> py_eq True (snd kv) w))"
| "py_eq same (JStr s) (JStr t) = (s = t)"
| "py_eq same JNull JNull = True"
| "py_eq same (JFloat FNaN) (JFloat FNaN) = same"
| "py_eq same x y =
     (case (as_num x, as_num y) of
        (Some m, Some n) \<Rightarrow> num_eq m n
      | other \<Rightarrow> False)"

definition py_ne :: "json \<Rightarrow> json \<Rightarrow> bool" where
  \<comment> \<open>\<^verbatim>\<open>a != b\<close>\<close>
  "py_ne a b = (\<not> py_eq False a b)"

section \<open>The delta engine\<close>

subsection \<open>\<^verbatim>\<open>compute_delta\<close>\<close>

text \<open>
  The dict that \<^verbatim>\<open>compute_delta\<close> returns is a record: a \<open>metric\<close> for the entries with
  \<^verbatim>\<open>base\<close>, \<^verbatim>\<open>head\<close> and \<^verbatim>\<open>delta\<close>, a \<open>pair\<close> for \<^verbatim>\<open>grade\<close> and \<^verbatim>\<open>coverage_pct\<close>.
\<close>

record metric =
  m_base :: json
  m_head :: json
  m_delta :: json

record pair =
  p_base :: json
  p_head :: json

record delta_record =
  sites_total :: metric
  instrumented :: metric
  uninstrumented :: metric
  score :: metric
  grade :: pair
  coverage_pct :: pair

definition scan_summary :: "json \<Rightarrow> error + json" where
  \<comment> \<open>\<^verbatim>\<open>doc.get("scan", {}).get("summary", doc.get("scan", {}))\<close>\<close>
  "scan_summary doc =
     and_then (py_get doc ''scan'' (JObj [])) (\<lambda>scan.
     and_then (py_get doc ''scan'' (JObj [])) (\<lambda>dflt.
     py_get scan ''summary'' dflt))"

definition coverage :: "json \<Rightarrow> json \<Rightarrow> error + json" where
  \<comment> \<open>\<^verbatim>\<open>round(instr / sites * 100, 1) if sites > 0 else 0\<close>\<close>
  "coverage instr sites =
     and_then (py_gt0 sites) (\<lambda>pos.
       if pos then
         and_then (py_truediv instr sites) (\<lambda>q.
         and_then (int_to_float 100) (\<lambda>c.
         and_then (round1_float (fl_mul q c)) (\<lambda>r.
         Inr (JFloat r))))
       else Inr (JInt 0))"

definition compute_delta :: "json \<Rightarrow> json \<Rightarrow> error + delta_record" where
  "compute_delta base head =
     and_then (scan_summary base) (\<lambda>base_scan.
     and_then (scan_summary head) (\<lambda>head_scan.
     and_then (py_get base ''score'' (JObj [])) (\<lambda>base_score.
     and_then (py_get head ''score'' (JObj [])) (\<lambda>head_score.
     and_then (py_get base_scan ''sites_total'' (JInt 0)) (\<lambda>b_sites.
     and_then (py_get head_scan ''sites_total'' (JInt 0)) (\<lambda>h_sites.
     and_then (py_get base_scan ''instrumented'' (JInt 0)) (\<lambda>b_instr.
     and_then (py_get head_scan ''instrumented'' (JInt 0)) (\<lambda>h_instr.
     and_then (py_get base_scan ''uninstrumented'' (JInt 0)) (\<lambda>b_uninstr.
     and_then (py_get head_scan ''uninstrumented'' (JInt 0)) (\<lambda>h_uninstr.
     and_then (py_get base_score ''score'' (JInt 0)) (\<lambda>b_score_val.
     and_then (py_get head_score ''score'' (JInt 0)) (\<lambda>h_score_val.
     and_then (py_get base_score ''grade'' (JStr ''?'')) (\<lambda>b_grade.
     and_then (py_get head_score ''grade'' (JStr ''?'')) (\<lambda>h_grade.
     and_then (py_sub h_sites b_sites) (\<lambda>d_sites.
     and_then (py_sub h_instr b_instr) (\<lambda>d_instr.
     and_then (py_sub h_uninstr b_uninstr) (\<lambda>d_uninstr.
     and_then (py_sub h_score_val b_score_val) (\<lambda>raw.
     and_then (py_round1 raw) (\<lambda>d_score.
     and_then (coverage b_instr b_sites) (\<lambda>cov_base.
     and_then (coverage h_instr h_sites) (\<lambda>cov_head.
     Inr \<lparr> sites_total = \<lparr> m_base = b_sites, m_head = h_sites, m_delta = d_sites \<rparr>,
           instrumented = \<lparr> m_base = b_instr, m_head = h_instr, m_delta = d_instr \<rparr>,
           uninstrumented =
             \<lparr> m_base = b_uninstr, m_head = h_uninstr, m_delta = d_uninstr \<rparr>,
           score = \<lparr> m_base = b_score_val, m_head = h_score_val, m_delta = d_score \<rparr>,
           grade = \<lparr> p_base = b_grade, p_head = h_grade \<rparr>,
           coverage_pct = \<lparr> p_base = cov_base, p_head = cov_head \<rparr> \<rparr>
     )))))))))))))))))))))"

subsection \<open>\<^verbatim>\<open>find_new_uninstrumented\<close>\<close>

record new_site =
  s_file :: json
  s_line :: string
  s_call :: json
  s_provider :: json

definition site_list :: "json \<Rightarrow> error + json" where
  \<comment> \<open>\<^verbatim>\<open>doc.get("scan", {}).get("sites", doc.get("sites", []))\<close>\<close>
  "site_list doc =
     and_then (py_get doc ''scan'' (JObj [])) (\<lambda>scan.
     and_then (py_get doc ''sites'' (JArr [])) (\<lambda>dflt.
     py_get scan ''sites'' dflt))"

definition site_key :: "(json \<Rightarrow> string) \<Rightarrow> (string \<times> json) list \<Rightarrow> error + string" where
  \<comment> \<open>the f-string \<^verbatim>\<open>{file}:{line}:{call}\<close> of a site, each field defaulting to \<^verbatim>\<open>''\<close>\<close>
  "site_key rp site =
     and_then (py_str rp (dict_get site ''file'' (JStr []))) (\<lambda>f.
     and_then (py_str rp (dict_get site ''line'' (JStr []))) (\<lambda>l.
     and_then (py_str rp (dict_get site ''call'' (JStr []))) (\<lambda>c.
     Inr (f @ '':'' @ l @ '':'' @ c))))"

definition new_entry :: "(json \<Rightarrow> string) \<Rightarrow> (string \<times> json) list \<Rightarrow> error + new_site" where
  "new_entry rp site =
     and_then (py_str rp (dict_get site ''line'' (JStr ''?''))) (\<lambda>l.
     Inr \<lparr> s_file = dict_get site ''file'' (JStr ''unknown''),
           s_line = l,
           s_call = dict_get site ''call'' (JStr ''unknown''),
           s_provider = dict_get site ''provider'' (JStr ''unknown'') \<rparr>)"

text \<open>The two loops. A site that is not a dict has no \<^verbatim>\<open>get\<close>: AttributeError.\<close>

fun base_loop :: "(json \<Rightarrow> string) \<Rightarrow> json list \<Rightarrow> string set \<Rightarrow> error + string set" where
  "base_loop rp [] base_sites = Inr base_sites"
| "base_loop rp (site # rest) base_sites =
     (case site of
        JObj kvs \<Rightarrow>
          and_then (site_key rp kvs) (\<lambda>key. base_loop rp rest (insert key base_sites))
      | other \<Rightarrow> Inl AttributeError)"

fun head_loop ::
  "(json \<Rightarrow> string) \<Rightarrow> string set \<Rightarrow> json list \<Rightarrow> new_site list \<Rightarrow> error + new_site list"
where
  "head_loop rp base_sites [] head_new = Inr head_new"
| "head_loop rp base_sites (site # rest) head_new =
     (case site of
        JObj kvs \<Rightarrow>
          if \<not> py_truthy (dict_get kvs ''instrumented'' (JBool False)) then
            and_then (site_key rp kvs) (\<lambda>key.
              if key \<notin> base_sites
              then and_then (new_entry rp kvs) (\<lambda>entry.
                     head_loop rp base_sites rest (head_new @ [entry]))
              else head_loop rp base_sites rest head_new)
          else head_loop rp base_sites rest head_new
      | other \<Rightarrow> Inl AttributeError)"

definition find_new_uninstrumented ::
  "(json \<Rightarrow> string) \<Rightarrow> json \<Rightarrow> json \<Rightarrow> error + new_site list"
where
  "find_new_uninstrumented rp base head =
     and_then (site_list base) (\<lambda>bs.
     and_then (py_iter bs) (\<lambda>base_list.
     and_then (base_loop rp base_list {}) (\<lambda>base_sites.
     and_then (site_list head) (\<lambda>hs.
     and_then (py_iter hs) (\<lambda>head_list.
     and_then (head_loop rp base_sites head_list []) (\<lambda>head_new.
     Inr (take 10 head_new)))))))"

subsection \<open>\<^verbatim>\<open>render_markdown\<close>\<close>

fun join_lines :: "string list \<Rightarrow> string" where
  \<comment> \<open>\<^verbatim>\<open>"\n".join(lines)\<close>\<close>
  "join_lines [] = []"
| "join_lines [l] = l"
| "join_lines (l # ls) = l @ CHR 0x0A # join_lines ls"

definition score_icon :: "json \<Rightarrow> error + string" where
  "score_icon d =
     and_then (py_gt0 d) (\<lambda>up.
       if up then Inr '' [improved]''
       else and_then (py_lt0 d) (\<lambda>down. Inr (if down then '' [regressed]'' else [])))"

definition grade_change :: "(json \<Rightarrow> string) \<Rightarrow> pair \<Rightarrow> error + json" where
  \<comment> \<open>the text \<^verbatim>\<open>base -> head\<close> when the grades differ, otherwise the head grade itself\<close>
  "grade_change rp g =
     (if py_ne (p_base g) (p_head g)
      then and_then (py_str rp (p_base g)) (\<lambda>b.
           and_then (py_str rp (p_head g)) (\<lambda>h.
           Inr (JStr (b @ '' -> '' @ h))))
      else Inr (p_head g))"

definition grade_row :: "(json \<Rightarrow> string) \<Rightarrow> pair \<Rightarrow> error + string" where
  "grade_row rp g =
     and_then (grade_change rp g) (\<lambda>change.
     and_then (py_str rp (p_base g)) (\<lambda>b.
     and_then (py_str rp (p_head g)) (\<lambda>h.
     and_then (py_str rp change) (\<lambda>c.
     Inr (''| **Grade** | '' @ b @ '' | '' @ h @ '' | '' @ c @ '' |'')))))"

definition count_row :: "(json \<Rightarrow> string) \<Rightarrow> string \<Rightarrow> metric \<Rightarrow> error + string" where
  \<comment> \<open>the rows of \<^verbatim>\<open>sites_total\<close>, \<^verbatim>\<open>instrumented\<close> and \<^verbatim>\<open>uninstrumented\<close>\<close>
  "count_row rp label m =
     and_then (py_str rp (m_base m)) (\<lambda>b.
     and_then (py_str rp (m_head m)) (\<lambda>h.
     and_then (fmt_plus_d (m_delta m)) (\<lambda>d.
     Inr (''| '' @ label @ '' | '' @ b @ '' | '' @ h @ '' | '' @ d @ '' |''))))"

definition site_row :: "(json \<Rightarrow> string) \<Rightarrow> new_site \<Rightarrow> error + string" where
  "site_row rp site =
     and_then (py_str rp (s_file site)) (\<lambda>f.
     and_then (py_str rp (s_call site)) (\<lambda>c.
     and_then (py_str rp (s_provider site)) (\<lambda>p.
     Inr (''| `'' @ f @ ''` | '' @ s_line site @ '' | `'' @ c @ ''` | '' @ p @ '' |''))))"

fun site_rows :: "(json \<Rightarrow> string) \<Rightarrow> new_site list \<Rightarrow> error + string list" where
  "site_rows rp [] = Inr []"
| "site_rows rp (site # rest) =
     and_then (site_row rp site) (\<lambda>row.
     and_then (site_rows rp rest) (\<lambda>rows. Inr (row # rows)))"

definition new_sites_section ::
  "(json \<Rightarrow> string) \<Rightarrow> new_site list \<Rightarrow> error + string list"
where
  "new_sites_section rp new_sites =
     (if new_sites \<noteq> [] then
        and_then (site_rows rp new_sites) (\<lambda>rows.
        Inr ([[], ''### New Uninstrumented Call Sites'', [],
              ''| File | Line | Call | Provider |'',
              ''|------|------|------|----------|''] @
             rows @
             [[],
              ''> Fix: `pip install assay-ai && assay patch .` to auto-instrument these sites.'']))
      else Inr [])"

definition footer :: "string list" where
  "footer =
     [[], ''---'',
      ''*Generated by [Assay Scorecard](https://haserjian.github.io/assay-scorecard/) | '' @
      ''[Methodology](https://haserjian.github.io/assay-scorecard/methodology.html)*'']"

definition render_markdown ::
  "(json \<Rightarrow> string) \<Rightarrow> delta_record \<Rightarrow> new_site list \<Rightarrow> error + string"
where
  "render_markdown rp delta new_sites =
     and_then (score_icon (m_delta (score delta))) (\<lambda>icon.
     and_then (fmt_f1 False (m_base (score delta))) (\<lambda>sb.
     and_then (fmt_f1 False (m_head (score delta))) (\<lambda>sh.
     and_then (fmt_f1 True (m_delta (score delta))) (\<lambda>sd.
     and_then (grade_row rp (grade delta)) (\<lambda>row_grade.
     and_then (count_row rp ''Call Sites'' (sites_total delta)) (\<lambda>row_sites.
     and_then (count_row rp ''Instrumented'' (instrumented delta)) (\<lambda>row_instr.
     and_then (count_row rp ''Uninstrumented'' (uninstrumented delta)) (\<lambda>row_uninstr.
     and_then (py_sub (p_head (coverage_pct delta)) (p_base (coverage_pct delta))) (\<lambda>cov_delta.
     and_then (fmt_f1 False (p_base (coverage_pct delta))) (\<lambda>cb.
     and_then (fmt_f1 False (p_head (coverage_pct delta))) (\<lambda>ch.
     and_then (fmt_f1 True cov_delta) (\<lambda>cd.
     and_then (new_sites_section rp new_sites) (\<lambda>site_lines.
     Inr (join_lines
       ([''## Evidence Readiness Score Delta'', [],
         ''| Metric | Base | Head | Delta |'',
         ''|--------|------|------|-------|'',
         ''| **Score** | '' @ sb @ '' | '' @ sh @ '' | '' @ sd @ icon @ '' |'',
         row_grade, row_sites, row_instr, row_uninstr,
         ''| Coverage | '' @ cb @ ''% | '' @ ch @ ''% | '' @ cd @ ''% |''] @
        site_lines @ footer)))))))))))))))"

subsection \<open>\<^verbatim>\<open>main\<close>\<close>

text \<open>
  Of the command line, the two flags that decide the result. Each input path is a file
  that is missing, a file whose loading raises, or a file that \<^verbatim>\<open>json.load\<close> parses.
  The process ends with an exit status and the report it has written (to the output file
  or to standard output), or with an exception that nothing catches.
\<close>

record args =
  json_output :: bool
  fail_on_regression :: bool

datatype input_file = Missing | Unreadable error | Loaded json

datatype report = Markdown string | Structured delta_record "new_site list" bool

datatype outcome = Exit nat "report option" | Raised error

fun load_scan_score :: "input_file \<Rightarrow> error + json" where
  "load_scan_score Missing = Inl OSError"
| "load_scan_score (Unreadable e) = Inl e"
| "load_scan_score (Loaded doc) = Inr doc"

text \<open>
  \<^verbatim>\<open>json.dumps(output, indent=2)\<close>. The report is kept as the data that is serialised, not
  as its text. Every value in it comes from \<^verbatim>\<open>json.load\<close> or from the arithmetic above,
  so serialising fails only on an integer beyond the digit limit.
\<close>

definition metric_ok :: "metric \<Rightarrow> bool" where
  "metric_ok m \<longleftrightarrow> digits_ok (m_base m) \<and> digits_ok (m_head m) \<and> digits_ok (m_delta m)"

definition pair_ok :: "pair \<Rightarrow> bool" where
  "pair_ok g \<longleftrightarrow> digits_ok (p_base g) \<and> digits_ok (p_head g)"

definition site_ok :: "new_site \<Rightarrow> bool" where
  "site_ok site \<longleftrightarrow>
     digits_ok (s_file site) \<and> digits_ok (s_call site) \<and> digits_ok (s_provider site)"

definition json_dumps :: "delta_record \<Rightarrow> new_site list \<Rightarrow> bool \<Rightarrow> error + report" where
  "json_dumps delta new_sites regressed =
     (if metric_ok (sites_total delta) \<and> metric_ok (instrumented delta) \<and>
         metric_ok (uninstrumented delta) \<and> metric_ok (score delta) \<and>
         pair_ok (grade delta) \<and> pair_ok (coverage_pct delta) \<and> list_all site_ok new_sites
      then Inr (Structured delta new_sites regressed)
      else Inl ValueError)"

definition make_report ::
  "(json \<Rightarrow> string) \<Rightarrow> args \<Rightarrow> delta_record \<Rightarrow> new_site list \<Rightarrow> error + report"
where
  "make_report rp a delta new_sites =
     (if json_output a then
        and_then (py_lt0 (m_delta (score delta))) (\<lambda>regressed.
        json_dumps delta new_sites regressed)
      else and_then (render_markdown rp delta new_sites) (\<lambda>result. Inr (Markdown result)))"

definition main :: "(json \<Rightarrow> string) \<Rightarrow> args \<Rightarrow> input_file \<Rightarrow> input_file \<Rightarrow> outcome" where
  "main rp a base_file head_file =
     (if base_file = Missing then Exit 3 None
      else if head_file = Missing then Exit 3 None
      else
        case and_then (load_scan_score base_file) (\<lambda>base.
             and_then (load_scan_score head_file) (\<lambda>head. Inr (base, head))) of
          Inl e \<Rightarrow> (if e = JSONDecodeError \<or> e = KeyError then Exit 3 None else Raised e)
        | Inr (base, head) \<Rightarrow>
            (case and_then (compute_delta base head) (\<lambda>delta.
                  and_then (find_new_uninstrumented rp base head) (\<lambda>new_sites.
                  and_then (make_report rp a delta new_sites) (\<lambda>result.
                  if fail_on_regression a then
                    and_then (py_lt0 (m_delta (score delta))) (\<lambda>neg.
                    Inr (if neg then Exit 1 (Some result) else Exit 0 (Some result)))
                  else Inr (Exit 0 (Some result))))) of
               Inl e \<Rightarrow> Raised e
             | Inr out \<Rightarrow> out))"

section \<open>Notions of the specification\<close>

text \<open>
  The site list of a document as the loops see it. The key of a site is the text
  \<^verbatim>\<open>file:line:call\<close> and its entry the dict reported for it; both exist when the fields
  that are converted to text are within the digit limit (\<open>key_ok\<close>), which the head loop
  asks only of the sites that are not instrumented (\<open>head_ok\<close>). A site qualifies for the
  report when it is not instrumented and its key is not among the keys of the base
  document.
\<close>

definition sites_of :: "json \<Rightarrow> error + json list" where
  "sites_of doc = and_then (site_list doc) py_iter"

definition key_text :: "(json \<Rightarrow> string) \<Rightarrow> (string \<times> json) list \<Rightarrow> string" where
  "key_text rp site =
     str_text rp (dict_get site ''file'' (JStr [])) @ '':'' @
     str_text rp (dict_get site ''line'' (JStr [])) @ '':'' @
     str_text rp (dict_get site ''call'' (JStr []))"

definition entry_of :: "(json \<Rightarrow> string) \<Rightarrow> (string \<times> json) list \<Rightarrow> new_site" where
  "entry_of rp site =
     \<lparr> s_file = dict_get site ''file'' (JStr ''unknown''),
       s_line = str_text rp (dict_get site ''line'' (JStr ''?'')),
       s_call = dict_get site ''call'' (JStr ''unknown''),
       s_provider = dict_get site ''provider'' (JStr ''unknown'') \<rparr>"

definition key_ok :: "(string \<times> json) list \<Rightarrow> bool" where
  "key_ok site \<longleftrightarrow>
     digits_ok (dict_get site ''file'' (JStr [])) \<and>
     digits_ok (dict_get site ''line'' (JStr [])) \<and>
     digits_ok (dict_get site ''call'' (JStr []))"

definition head_ok :: "(string \<times> json) list \<Rightarrow> bool" where
  "head_ok site \<longleftrightarrow> py_truthy (dict_get site ''instrumented'' (JBool False)) \<or> key_ok site"

definition qualifies :: "(json \<Rightarrow> string) \<Rightarrow> string set \<Rightarrow> (string \<times> json) list \<Rightarrow> bool" where
  "qualifies rp base_sites site \<longleftrightarrow>
     \<not> py_truthy (dict_get site ''instrumented'' (JBool False)) \<and>
     key_text rp site \<notin> base_sites"

text \<open>
  The identity of a site as the specification words it: its file, line and call, each
  possibly absent. A head site is new when it is not instrumented and its triple is the
  triple of no base site. The file, line and call of a reported entry are its triple.
\<close>

definition site_triple ::
  "(string \<times> json) list \<Rightarrow> json option \<times> json option \<times> json option"
where
  "site_triple site = (map_of site ''file'', map_of site ''line'', map_of site ''call'')"

definition new_site_of ::
  "(string \<times> json) list list \<Rightarrow> (string \<times> json) list \<Rightarrow> bool"
where
  "new_site_of bs site \<longleftrightarrow>
     \<not> py_truthy (dict_get site ''instrumented'' (JBool False)) \<and>
     site_triple site \<notin> site_triple ` set bs"

definition entry_triple :: "new_site \<Rightarrow> json \<times> string \<times> json" where
  "entry_triple e = (s_file e, s_line e, s_call e)"

text \<open>
  A site is plain when its file is a string without a colon, its line an integer within
  the digit limit and its call a string, as the scanner writes them. \<open>undec\<close> reads a
  decimal numeral back.
\<close>

fun str_without_colon :: "json option \<Rightarrow> bool" where
  "str_without_colon (Some (JStr s)) = (CHR '':'' \<notin> set s)"
| "str_without_colon v = False"

fun is_str :: "json option \<Rightarrow> bool" where
  "is_str (Some (JStr s)) = True"
| "is_str v = False"

fun is_int :: "json option \<Rightarrow> bool" where
  "is_int (Some (JInt n)) = int_fits n"
| "is_int v = False"

definition plain_site :: "(string \<times> json) list \<Rightarrow> bool" where
  "plain_site site \<longleftrightarrow>
     str_without_colon (map_of site ''file'') \<and> is_int (map_of site ''line'') \<and>
     is_str (map_of site ''call'')"

definition undec :: "string \<Rightarrow> nat" where
  "undec s = foldl (\<lambda>a c. 10 * a + (of_char c - 48)) 0 s"

text \<open>
  The values \<^verbatim>\<open>compute_delta\<close> reads from one document, and the percentage of the
  specification: \<^verbatim>\<open>instrumented / sites_total * 100\<close> rounded to one decimal.
\<close>

definition scan_value :: "json \<Rightarrow> string \<Rightarrow> error + json" where
  "scan_value doc k = and_then (scan_summary doc) (\<lambda>s. py_get s k (JInt 0))"

definition score_value :: "json \<Rightarrow> string \<Rightarrow> json \<Rightarrow> error + json" where
  "score_value doc k dflt = and_then (py_get doc ''score'' (JObj [])) (\<lambda>s. py_get s k dflt)"

definition pct :: "json \<Rightarrow> json \<Rightarrow> error + json" where
  "pct instr sites =
     and_then (py_truediv instr sites) (\<lambda>q.
     and_then (int_to_float 100) (\<lambda>c.
     and_then (round1_float (fl_mul q c)) (\<lambda>r. Inr (JFloat r))))"

text \<open>
  A document is dict-shaped when it is a dict and its \<^verbatim>\<open>scan\<close>, \<^verbatim>\<open>scan.summary\<close> and
  \<^verbatim>\<open>score\<close> entries, where present, are dicts. The scan-summary fields are read from
  \<^verbatim>\<open>scan.summary\<close> when \<^verbatim>\<open>scan\<close> has the key \<^verbatim>\<open>summary\<close> and from \<^verbatim>\<open>scan\<close> otherwise, the
  score fields from \<^verbatim>\<open>score\<close>. A count is in order when it is an integer of magnitude at
  most \<open>2 ^ 1000\<close>, a score when it is such an integer or a finite float within that
  bound; \<open>fields_ok\<close> asks this of the numeric fields that are present.
\<close>

fun items :: "json \<Rightarrow> (string \<times> json) list" where
  "items (JObj kvs) = kvs"
| "items v = []"

fun is_dict :: "json \<Rightarrow> bool" where
  "is_dict (JObj kvs) = True"
| "is_dict v = False"

definition dict_shaped :: "json \<Rightarrow> bool" where
  "dict_shaped doc \<longleftrightarrow>
     is_dict doc \<and>
     (case map_of (items doc) ''scan'' of
        None \<Rightarrow> True
      | Some scan \<Rightarrow>
          is_dict scan \<and>
          (case map_of (items scan) ''summary'' of None \<Rightarrow> True | Some s \<Rightarrow> is_dict s)) \<and>
     (case map_of (items doc) ''score'' of None \<Rightarrow> True | Some s \<Rightarrow> is_dict s)"

definition summary_source :: "json \<Rightarrow> (string \<times> json) list" where
  "summary_source doc =
     (case map_of (items doc) ''scan'' of
        None \<Rightarrow> []
      | Some scan \<Rightarrow>
          (case map_of (items scan) ''summary'' of None \<Rightarrow> items scan | Some s \<Rightarrow> items s))"

definition score_source :: "json \<Rightarrow> (string \<times> json) list" where
  "score_source doc = (case map_of (items doc) ''score'' of None \<Rightarrow> [] | Some s \<Rightarrow> items s)"

definition has_sites :: "json \<Rightarrow> bool" where
  "has_sites doc \<longleftrightarrow>
     map_of (items doc) ''sites'' \<noteq> None \<or>
     (case map_of (items doc) ''scan'' of
        None \<Rightarrow> False
      | Some scan \<Rightarrow> map_of (items scan) ''sites'' \<noteq> None)"

definition count_ok :: "json \<Rightarrow> bool" where
  "count_ok v = (case v of JInt n \<Rightarrow> \<bar>n\<bar> \<le> 2 ^ 1000 | other \<Rightarrow> False)"

definition score_ok :: "json \<Rightarrow> bool" where
  "score_ok v =
     (case v of
        JInt n \<Rightarrow> \<bar>n\<bar> \<le> 2 ^ 1000
      | JFloat (FFin s a) \<Rightarrow> 0 \<le> a \<and> a \<le> 2 ^ 1000
      | other \<Rightarrow> False)"

definition present_ok :: "(json \<Rightarrow> bool) \<Rightarrow> (string \<times> json) list \<Rightarrow> string \<Rightarrow> bool" where
  "present_ok ok kvs k = (case map_of kvs k of None \<Rightarrow> True | Some v \<Rightarrow> ok v)"

definition fields_ok :: "json \<Rightarrow> bool" where
  "fields_ok doc \<longleftrightarrow>
     present_ok count_ok (summary_source doc) ''sites_total'' \<and>
     present_ok count_ok (summary_source doc) ''instrumented'' \<and>
     present_ok count_ok (summary_source doc) ''uninstrumented'' \<and>
     present_ok score_ok (score_source doc) ''score''"

text \<open>
  The texts that \<^verbatim>\<open>render_markdown\<close> copies from its input into the report, and whether
  a word occurs in one of them. \<open>number_chars\<close> are the characters of a formatted number.
\<close>

definition copied_texts :: "(json \<Rightarrow> string) \<Rightarrow> delta_record \<Rightarrow> new_site list \<Rightarrow> string list" where
  "copied_texts rp delta new_sites =
     [str_text rp (p_base (grade delta)), str_text rp (p_head (grade delta)),
      str_text rp (m_base (sites_total delta)), str_text rp (m_head (sites_total delta)),
      str_text rp (m_base (instrumented delta)), str_text rp (m_head (instrumented delta)),
      str_text rp (m_base (uninstrumented delta)), str_text rp (m_head (uninstrumented delta))] @
     concat (map (\<lambda>site. [str_text rp (s_file site), s_line site, str_text rp (s_call site),
                            str_text rp (s_provider site)]) new_sites)"

definition mentions :: "string \<Rightarrow> (json \<Rightarrow> string) \<Rightarrow> delta_record \<Rightarrow> new_site list \<Rightarrow> bool" where
  "mentions w rp delta new_sites = list_ex (sublist w) (copied_texts rp delta new_sites)"

definition number_chars :: "char set" where
  "number_chars = set ''0123456789.+-infa''"

section \<open>Basic facts and evaluation rules\<close>

lemma and_then_Inl [simp]: "and_then (Inl e) f = Inl e"
  by (simp add: and_then_def)

lemma and_then_Inr [simp]: "and_then (Inr v) f = f v"
  by (simp add: and_then_def)

lemma and_then_eq_Inr: "and_then r f = Inr y \<longleftrightarrow> (\<exists>v. r = Inr v \<and> f v = Inr y)"
  by (cases r) simp_all

lemma dec_small: "n < 10 \<Longrightarrow> dec n = [''0123456789'' ! n]"
  by (subst dec.simps) simp

lemma dec_big: "10 \<le> n \<Longrightarrow> dec n = dec (n div 10) @ [''0123456789'' ! (n mod 10)]"
  by (subst dec.simps) simp

lemma int_fits_small: "\<bar>n\<bar> < 1000000000 \<Longrightarrow> int_fits n"
proof -
  assume "\<bar>n\<bar> < 1000000000"
  moreover have "(10 :: int) ^ 9 \<le> 10 ^ max_str_digits"
    by (rule power_increasing) (simp_all add: max_str_digits_def)
  ultimately show ?thesis by (simp add: int_fits_def)
qed

lemmas text_eval = dec_small dec_big str_int_def sign_str_def py_str_def int_fits_small

lemmas find_eval = find_new_uninstrumented_def site_list_def dict_get_def site_key_def
  new_entry_def text_eval

lemma nbits_0 [simp]: "nbits 0 = 0"
  by (simp add: nbits.simps)

lemma nbits_1 [simp]: "nbits 1 = 1"
  by (simp add: nbits.simps)

lemma nbits_Suc_0 [simp]: "nbits (Suc 0) = 1"
  by (simp add: nbits.simps)

lemma nbits_Bit0 [simp]: "nbits (numeral (num.Bit0 k)) = Suc (nbits (numeral k))"
  by (subst nbits.simps) simp

lemma nbits_Bit1 [simp]: "nbits (numeral (num.Bit1 k)) = Suc (nbits (numeral k))"
  by (subst nbits.simps) simp

lemma floor_rat_numeral_div [simp]:
  "\<lfloor>(numeral a :: rat) / numeral b\<rfloor> = numeral a div numeral b"
  using floor_divide_of_int_eq [of "numeral a" "numeral b", where ?'a = rat] by simp

lemma floor_rat_one_div [simp]: "\<lfloor>(1 :: rat) / numeral b\<rfloor> = 1 div numeral b"
  using floor_divide_of_int_eq [of 1 "numeral b", where ?'a = rat] by simp

lemma ceiling_rat_numeral_div [simp]:
  "\<lceil>(numeral a :: rat) / numeral b\<rceil> = - (- numeral a div numeral b)"
  using floor_divide_of_int_eq [of "- numeral a" "numeral b", where ?'a = rat]
  by (simp add: ceiling_def)

lemma ceiling_rat_one_div [simp]: "\<lceil>(1 :: rat) / numeral b\<rceil> = - (- 1 div numeral b)"
  using floor_divide_of_int_eq [of "- 1" "numeral b", where ?'a = rat]
  by (simp add: ceiling_def)

lemmas fl_eval = fl_round_def ilog2_def pow2_def round_half_even_def Let_def fl_sub_def
  int_to_float_def round1_float_def

lemmas delta_eval = compute_delta_def scan_summary_def dict_get_def py_sub_def py_round1_def
  coverage_def py_gt0_def py_lt0_def py_truediv_def fl_eval

lemma int_to_float_100 [simp]: "int_to_float 100 = Inr (FFin False 100)"
  by (simp add: fl_eval)

section \<open>The new uninstrumented call sites\<close>

subsection \<open>Keys and triples\<close>

lemma digit_in: "n < 10 \<Longrightarrow> ''0123456789'' ! n \<in> set ''0123456789''"
  by (rule nth_mem) simp

lemma dec_digits: "set (dec n) \<subseteq> set ''0123456789''"
proof (induction n rule: dec.induct)
  case (1 n)
  show ?case
  proof (cases "n < 10")
    case True
    then show ?thesis using digit_in [of n] by (simp add: dec_small)
  next
    case False
    then have "set (dec (n div 10)) \<subseteq> set ''0123456789''" using 1 by simp
    moreover have "''0123456789'' ! (n mod 10) \<in> set ''0123456789''"
      by (rule digit_in) simp
    ultimately show ?thesis using False by (simp add: dec_big)
  qed
qed

lemma dec_no_sign: "CHR ''-'' \<notin> set (dec n)"
proof -
  have "CHR ''-'' \<notin> set ''0123456789''" by simp
  with dec_digits [of n] show ?thesis by blast
qed

lemma dec_no_colon: "CHR '':'' \<notin> set (dec n)"
proof -
  have "CHR '':'' \<notin> set ''0123456789''" by simp
  with dec_digits [of n] show ?thesis by blast
qed

lemma dec_not_Nil: "dec n \<noteq> []"
  by (subst dec.simps) simp

lemma undec_digit: "n < 10 \<Longrightarrow> undec [''0123456789'' ! n] = n"
proof -
  assume "n < 10"
  then have "n \<in> {0, 1, 2, 3, 4, 5, 6, 7, 8, 9}"
    by (simp only: insert_iff empty_iff) presburger
  then show ?thesis by (elim insertE emptyE) (simp_all add: undec_def)
qed

lemma undec_snoc: "undec (s @ [c]) = 10 * undec s + undec [c]"
  by (simp add: undec_def)

lemma undec_dec: "undec (dec n) = n"
proof (induction n rule: dec.induct)
  case (1 n)
  show ?case
  proof (cases "n < 10")
    case True
    then show ?thesis by (simp add: dec_small undec_digit)
  next
    case False
    then have "undec (dec (n div 10)) = n div 10" using 1 by simp
    moreover have "undec [''0123456789'' ! (n mod 10)] = n mod 10"
      by (rule undec_digit) simp
    ultimately show ?thesis using False by (simp add: dec_big undec_snoc)
  qed
qed

lemma dec_inj: "dec m = dec n \<Longrightarrow> m = n"
proof -
  assume "dec m = dec n"
  then have "undec (dec m) = undec (dec n)" by simp
  then show "m = n" by (simp only: undec_dec)
qed

lemma str_int_head: "hd (str_int k) = CHR ''-'' \<longleftrightarrow> k < 0"
proof (cases "k < 0")
  case True
  then show ?thesis by (simp add: str_int_def)
next
  case False
  obtain c cs where d: "dec (nat k) = c # cs"
    using dec_not_Nil [of "nat k"] by (cases "dec (nat k)") auto
  with dec_no_sign [of "nat k"] have "c \<noteq> CHR ''-''" by auto
  with False d show ?thesis by (simp add: str_int_def)
qed

lemma str_int_inj:
  assumes "str_int m = str_int n"
  shows "m = n"
proof -
  from assms have "hd (str_int m) = CHR ''-'' \<longleftrightarrow> hd (str_int n) = CHR ''-''" by simp
  then have s: "m < 0 \<longleftrightarrow> n < 0" by (simp only: str_int_head)
  show ?thesis
  proof (cases "m < 0")
    case True
    with s have n: "n < 0" by simp
    with True assms have "dec (nat (- m)) = dec (nat (- n))" by (simp add: str_int_def)
    then have "nat (- m) = nat (- n)" by (rule dec_inj)
    with True n show ?thesis by simp
  next
    case False
    with s have n: "\<not> n < 0" by simp
    with False assms have "dec (nat m) = dec (nat n)" by (simp add: str_int_def)
    then have "nat m = nat n" by (rule dec_inj)
    with False n show ?thesis by simp
  qed
qed

lemma str_int_no_colon: "CHR '':'' \<notin> set (str_int n)"
  using dec_no_colon by (simp add: str_int_def)

lemma split_at_first:
  assumes "c \<notin> set xs" "c \<notin> set ys" "xs @ c # r = ys @ c # r'"
  shows "xs = ys \<and> r = r'"
  using assms
proof (induction xs arbitrary: ys)
  case Nil
  then show ?case by (cases ys) auto
next
  case (Cons x xs)
  then show ?case by (cases ys) auto
qed

lemma str_without_colonD: "str_without_colon v \<Longrightarrow> \<exists>s. v = Some (JStr s) \<and> CHR '':'' \<notin> set s"
  by (cases v rule: str_without_colon.cases) simp_all

lemma is_strD: "is_str v \<Longrightarrow> \<exists>s. v = Some (JStr s)"
  by (cases v rule: is_str.cases) simp_all

lemma is_intD: "is_int v \<Longrightarrow> \<exists>n. v = Some (JInt n) \<and> int_fits n"
  by (cases v rule: is_int.cases) simp_all

lemma plain_siteD:
  assumes "plain_site a"
  shows "\<exists>f n c. map_of a ''file'' = Some (JStr f) \<and> map_of a ''line'' = Some (JInt n) \<and>
           map_of a ''call'' = Some (JStr c) \<and> CHR '':'' \<notin> set f \<and> int_fits n"
  using assms str_without_colonD [of "map_of a ''file''"] is_intD [of "map_of a ''line''"]
    is_strD [of "map_of a ''call''"]
  unfolding plain_site_def by blast

lemma plain_site_key_ok: "plain_site a \<Longrightarrow> key_ok a"
  using plain_siteD [of a] by (auto simp: key_ok_def dict_get_def)

lemma plain_site_key_inj:
  assumes "plain_site a" "plain_site b" "key_text rp a = key_text rp b"
  shows "site_triple a = site_triple b"
proof -
  from plain_siteD [OF assms(1)] obtain f n c where
    a: "map_of a ''file'' = Some (JStr f)" "map_of a ''line'' = Some (JInt n)"
      "map_of a ''call'' = Some (JStr c)" "CHR '':'' \<notin> set f"
    by blast
  from plain_siteD [OF assms(2)] obtain f' n' c' where
    b: "map_of b ''file'' = Some (JStr f')" "map_of b ''line'' = Some (JInt n')"
      "map_of b ''call'' = Some (JStr c')" "CHR '':'' \<notin> set f'"
    by blast
  from assms(3) a(1-3) b(1-3) have
    "f @ CHR '':'' # (str_int n @ CHR '':'' # c) = f' @ CHR '':'' # (str_int n' @ CHR '':'' # c')"
    by (simp add: key_text_def dict_get_def)
  from split_at_first [OF a(4) b(4) this] have
    f: "f = f'" and r: "str_int n @ CHR '':'' # c = str_int n' @ CHR '':'' # c'" by simp_all
  from split_at_first [OF str_int_no_colon str_int_no_colon r] have
    "str_int n = str_int n'" and c: "c = c'" by simp_all
  then have "n = n'" using str_int_inj by blast
  with f c a(1-3) b(1-3) show ?thesis by (simp add: site_triple_def)
qed

lemma site_triple_key:
  "site_triple a = site_triple b \<Longrightarrow> key_text rp a = key_text rp b"
  by (simp add: site_triple_def key_text_def dict_get_def)

lemma plain_entry_triple_inj:
  assumes "plain_site a" "plain_site b"
    and "entry_triple (entry_of rp a) = entry_triple (entry_of rp b)"
  shows "site_triple a = site_triple b"
proof -
  from plain_siteD [OF assms(1)] obtain f n c where
    a: "map_of a ''file'' = Some (JStr f)" "map_of a ''line'' = Some (JInt n)"
      "map_of a ''call'' = Some (JStr c)"
    by blast
  from plain_siteD [OF assms(2)] obtain f' n' c' where
    b: "map_of b ''file'' = Some (JStr f')" "map_of b ''line'' = Some (JInt n')"
      "map_of b ''call'' = Some (JStr c')"
    by blast
  from assms(3) a b have "f = f'" "str_int n = str_int n'" "c = c'"
    by (simp_all add: entry_triple_def entry_of_def dict_get_def)
  then have "f = f'" "n = n'" "c = c'" using str_int_inj by blast+
  with a b show ?thesis by (simp add: site_triple_def)
qed

lemma site_key_text:
  "site_key rp site = (if key_ok site then Inr (key_text rp site) else Inl ValueError)"
  by (simp add: site_key_def key_ok_def key_text_def py_str_def)

lemma key_ok_line: "key_ok site \<Longrightarrow> digits_ok (dict_get site ''line'' (JStr ''?''))"
  by (simp add: key_ok_def dict_get_def split: option.splits)

lemma new_entry_text: "key_ok site \<Longrightarrow> new_entry rp site = Inr (entry_of rp site)"
  using key_ok_line [of site] by (simp add: new_entry_def entry_of_def py_str_def)

subsection \<open>The loops\<close>

lemma base_loop_dicts:
  "base_loop rp (map JObj ds) S =
     (if list_all key_ok ds then Inr (S \<union> key_text rp ` set ds) else Inl ValueError)"
  by (induction ds arbitrary: S) (auto simp: site_key_text)

lemma head_loop_dicts:
  "head_loop rp S (map JObj ds) acc =
     (if list_all head_ok ds
      then Inr (acc @ map (entry_of rp) (filter (qualifies rp S) ds))
      else Inl ValueError)"
  by (induction ds arbitrary: acc)
    (auto simp: qualifies_def head_ok_def site_key_text new_entry_text)

lemma find_new_char:
  assumes "sites_of base = Inr (map JObj bs)" and "sites_of head = Inr (map JObj hs)"
  shows "find_new_uninstrumented rp base head =
           (if list_all key_ok bs \<and> list_all head_ok hs
            then Inr (take 10 (map (entry_of rp)
                   (filter (qualifies rp (key_text rp ` set bs)) hs)))
            else Inl ValueError)"
  using assms
  by (auto simp: find_new_uninstrumented_def sites_of_def and_then_eq_Inr
        base_loop_dicts head_loop_dicts)

lemma base_loop_Inr: "base_loop rp xs S = Inr T \<Longrightarrow> \<exists>ds. xs = map JObj ds"
proof (induction xs arbitrary: S)
  case Nil
  then show ?case by simp
next
  case (Cons x xs)
  then obtain kvs where x: "x = JObj kvs" by (cases x) auto
  with Cons obtain ds where "xs = map JObj ds" by (auto simp: and_then_eq_Inr)
  with x have "x # xs = map JObj (kvs # ds)" by simp
  then show ?case by (rule exI)
qed

lemma head_loop_Inr: "head_loop rp S xs acc = Inr r \<Longrightarrow> \<exists>ds. xs = map JObj ds"
proof (induction xs arbitrary: acc)
  case Nil
  then show ?case by simp
next
  case (Cons x xs)
  then obtain kvs where x: "x = JObj kvs" by (cases x) auto
  with Cons obtain ds where "xs = map JObj ds"
    by (auto simp: and_then_eq_Inr split: if_splits)
  with x have "x # xs = map JObj (kvs # ds)" by simp
  then show ?case by (rule exI)
qed

lemma find_new_Inr:
  assumes "find_new_uninstrumented rp base head = Inr out"
  shows "\<exists>bs hs. sites_of base = Inr (map JObj bs) \<and> sites_of head = Inr (map JObj hs) \<and>
           list_all key_ok bs \<and> list_all head_ok hs"
proof -
  from assms obtain b bl S h hl r where
    b: "site_list base = Inr b" "py_iter b = Inr bl" "base_loop rp bl {} = Inr S"
    and h: "site_list head = Inr h" "py_iter h = Inr hl" "head_loop rp S hl [] = Inr r"
    by (auto simp: find_new_uninstrumented_def and_then_eq_Inr)
  from b(3) obtain bs where bs: "bl = map JObj bs" using base_loop_Inr by blast
  from h(3) obtain hs where hs: "hl = map JObj hs" using head_loop_Inr by blast
  from b bs have sb: "sites_of base = Inr (map JObj bs)" by (simp add: sites_of_def)
  from h hs have sh: "sites_of head = Inr (map JObj hs)" by (simp add: sites_of_def)
  from find_new_char [OF sb sh, of rp] assms have "list_all key_ok bs \<and> list_all head_ok hs"
    by (simp split: if_splits)
  with sb sh show ?thesis by blast
qed

text \<open>
  Claim C4. Whenever \<^verbatim>\<open>find_new_uninstrumented\<close> returns, both site lists are lists of
  dicts and the result is the first ten of the qualifying sites of the head document, in
  the order of the head document's list: never more than ten entries, exactly
  \<open>min 10 n\<close> for \<open>n\<close> qualifying sites, so exactly ten from twenty qualifying sites on.
\<close>

theorem new_uninstrumented_is_capped_prefix:
  assumes "find_new_uninstrumented rp base head = Inr out"
  shows "\<exists>bs hs. sites_of base = Inr (map JObj bs) \<and> sites_of head = Inr (map JObj hs) \<and>
           out = take 10 (map (entry_of rp)
                   (filter (qualifies rp (key_text rp ` set bs)) hs)) \<and>
           length out = min 10 (length (filter (qualifies rp (key_text rp ` set bs)) hs)) \<and>
           length out \<le> 10 \<and>
           (20 \<le> length (filter (qualifies rp (key_text rp ` set bs)) hs)
              \<longrightarrow> length out = 10)"
proof -
  from find_new_Inr [OF assms] obtain bs hs where
    s: "sites_of base = Inr (map JObj bs)" "sites_of head = Inr (map JObj hs)"
    and ok: "list_all key_ok bs \<and> list_all head_ok hs"
    by blast
  from find_new_char [OF s, of rp] assms ok have
    "out = take 10 (map (entry_of rp) (filter (qualifies rp (key_text rp ` set bs)) hs))"
    by simp
  with s show ?thesis
    by (intro exI [of _ bs] exI [of _ hs]) simp
qed

text \<open>
  Twenty new sites \<^verbatim>\<open>f0.py\<close>, ..., \<^verbatim>\<open>f19.py\<close> against an empty base: the first ten come
  out, in order.
\<close>

theorem new_uninstrumented_is_capped_prefix_witness:
  "\<exists>out. find_new_uninstrumented (\<lambda>v. []) (JObj [(''sites'', JArr [])])
      (JObj [(''sites'', JArr (map (\<lambda>i. JObj [(''file'', JStr (''f'' @ str_int i @ ''.py'')),
          (''line'', JInt i), (''call'', JStr ''x'')]) [0..19]))]) = Inr out \<and>
     length out \<le> 10 \<and>
     map s_file out = map (\<lambda>i. JStr (''f'' @ str_int i @ ''.py'')) [0..9]"
proof -
  let ?f = "find_new_uninstrumented (\<lambda>v. []) (JObj [(''sites'', JArr [])])
      (JObj [(''sites'', JArr (map (\<lambda>i. JObj [(''file'', JStr (''f'' @ str_int i @ ''.py'')),
          (''line'', JInt i), (''call'', JStr ''x'')]) [0..19]))])"
  obtain out where out: "?f = Inr out"
    "map s_file out = map (\<lambda>i. JStr (''f'' @ str_int i @ ''.py'')) [0..9]"
    by (simp add: find_eval upto.simps)
  from new_uninstrumented_is_capped_prefix [OF out(1)] have "length out \<le> 10" by blast
  with out show ?thesis by blast
qed

lemma count_list_filter_same: "P s \<Longrightarrow> count_list (filter P xs) s = count_list xs s"
  by (induction xs) auto

lemma count_list_map_ge: "count_list xs s \<le> count_list (map f xs) (f s)"
  by (induction xs) auto

text \<open>
  Claim C10. Nothing is deduplicated within the head document's list. When the site
  lists are lists of dicts whose keys can be written (the fields that make the key are
  within the digit limit) the function returns, and with at most ten qualifying sites
  the result has one entry for every qualifying occurrence, so a qualifying site that
  stands \<open>N\<close> times in the list has its entry at least \<open>N\<close> times in the result (more when
  a different site gives the same entry).
\<close>

theorem new_uninstrumented_keeps_duplicates:
  assumes "sites_of base = Inr (map JObj bs)" and "sites_of head = Inr (map JObj hs)"
    and "list_all key_ok bs" and "list_all head_ok hs"
    and "qualifies rp (key_text rp ` set bs) s"
    and "length (filter (qualifies rp (key_text rp ` set bs)) hs) \<le> 10"
  shows "\<exists>out. find_new_uninstrumented rp base head = Inr out \<and>
           length out = length (filter (qualifies rp (key_text rp ` set bs)) hs) \<and>
           count_list (filter (qualifies rp (key_text rp ` set bs)) hs) s = count_list hs s \<and>
           count_list hs s \<le> count_list out (entry_of rp s)"
proof -
  let ?q = "filter (qualifies rp (key_text rp ` set bs)) hs"
  have out: "find_new_uninstrumented rp base head = Inr (map (entry_of rp) ?q)"
    using find_new_char [OF assms(1,2), of rp] assms(3,4,6) by simp
  have c: "count_list ?q s = count_list hs s"
    using assms(5) by (rule count_list_filter_same)
  have "count_list ?q s \<le> count_list (map (entry_of rp) ?q) (entry_of rp s)"
    by (rule count_list_map_ge)
  with out c show ?thesis by simp
qed

text \<open>The site \<^verbatim>\<open>a.py:7\<close> twice in the head document, with another site between.\<close>

theorem new_uninstrumented_keeps_duplicates_witness:
  "\<exists>out. find_new_uninstrumented (\<lambda>v. []) (JObj [])
      (JObj [(''sites'', JArr [JObj [(''file'', JStr ''a.py''), (''line'', JInt 7), (''call'', JStr ''x'')],
                               JObj [(''file'', JStr ''b.py''), (''line'', JInt 1), (''call'', JStr ''y'')],
                               JObj [(''file'', JStr ''a.py''), (''line'', JInt 7), (''call'', JStr ''x'')]])]) = Inr out \<and>
     length out = 3 \<and>
     2 \<le> count_list out \<lparr> s_file = JStr ''a.py'', s_line = ''7'', s_call = JStr ''x'', s_provider = JStr ''unknown'' \<rparr>"
proof -
  let ?a = "[(''file'', JStr ''a.py''), (''line'', JInt 7), (''call'', JStr ''x'')]"
  let ?b = "[(''file'', JStr ''b.py''), (''line'', JInt 1), (''call'', JStr ''y'')]"
  let ?head = "JObj [(''sites'', JArr [JObj ?a, JObj ?b, JObj ?a])]"
  have b: "sites_of (JObj []) = Inr (map JObj [])"
    by (simp add: sites_of_def site_list_def dict_get_def)
  have h: "sites_of ?head = Inr (map JObj [?a, ?b, ?a])"
    by (simp add: sites_of_def site_list_def dict_get_def)
  have kb: "list_all key_ok []" by simp
  have kh: "list_all head_ok [?a, ?b, ?a]"
    by (simp add: head_ok_def key_ok_def dict_get_def int_fits_small)
  have q: "qualifies (\<lambda>v. []) (key_text (\<lambda>v. []) ` set []) ?a"
    by (simp add: qualifies_def dict_get_def)
  have n: "length (filter (qualifies (\<lambda>v. []) (key_text (\<lambda>v. []) ` set [])) [?a, ?b, ?a]) \<le> 10"
    by simp
  from new_uninstrumented_keeps_duplicates [OF b h kb kh q n]
  show ?thesis
    by (simp add: qualifies_def dict_get_def entry_of_def text_eval eval_nat_numeral)
qed

subsection \<open>Identity by file, line and call\<close>

lemma plain_qualifies:
  assumes "list_all plain_site bs" and "plain_site s"
  shows "qualifies rp (key_text rp ` set bs) s \<longleftrightarrow> new_site_of bs s"
proof -
  have "key_text rp s \<in> key_text rp ` set bs \<longleftrightarrow> site_triple s \<in> site_triple ` set bs"
  proof
    assume "key_text rp s \<in> key_text rp ` set bs"
    then obtain b where b: "b \<in> set bs" "key_text rp s = key_text rp b" by blast
    from assms(1) b(1) have "plain_site b" by (simp add: list_all_iff)
    with assms(2) b(2) have "site_triple s = site_triple b"
      by (intro plain_site_key_inj) simp_all
    with b(1) show "site_triple s \<in> site_triple ` set bs" by blast
  next
    assume "site_triple s \<in> site_triple ` set bs"
    then obtain b where b: "b \<in> set bs" "site_triple s = site_triple b" by blast
    from site_triple_key [OF b(2), of rp] b(1)
    show "key_text rp s \<in> key_text rp ` set bs" by blast
  qed
  then show ?thesis by (simp add: qualifies_def new_site_of_def)
qed

lemma plain_filter:
  assumes "list_all plain_site bs" and "list_all plain_site hs"
  shows "filter (qualifies rp (key_text rp ` set bs)) hs = filter (new_site_of bs) hs"
proof (rule filter_cong [OF refl])
  fix s assume "s \<in> set hs"
  with assms(2) have "plain_site s" by (simp add: list_all_iff)
  with assms(1) show "qualifies rp (key_text rp ` set bs) s = new_site_of bs s"
    by (rule plain_qualifies)
qed

lemma plain_keys_ok: "list_all plain_site ds \<Longrightarrow> list_all key_ok ds \<and> list_all head_ok ds"
  using plain_site_key_ok by (auto simp: list_all_iff head_ok_def)

text \<open>
  Claim C1, with the cap. For documents whose sites are plain, the function returns the
  first ten, in the order of the head document, of the entries of the head sites that
  are not instrumented and whose (file, line, call) triple is the triple of no base
  site. So a head site whose triple is the triple of a base site is never in the result,
  whatever its provider or its instrumented flag, and with at most ten new sites every
  one of them is in the result. The triples are compared component by component.
\<close>

theorem new_uninstrumented_by_triple:
  assumes "sites_of base = Inr (map JObj bs)" and "sites_of head = Inr (map JObj hs)"
    and "list_all plain_site bs" and "list_all plain_site hs"
  shows "\<exists>out. find_new_uninstrumented rp base head = Inr out \<and>
           out = take 10 (map (entry_of rp) (filter (new_site_of bs) hs)) \<and>
           (\<forall>s \<in> set hs. site_triple s \<in> site_triple ` set bs \<longrightarrow>
               entry_triple (entry_of rp s) \<notin> entry_triple ` set out) \<and>
           (length (filter (new_site_of bs) hs) \<le> 10 \<longrightarrow>
              (\<forall>s \<in> set hs. new_site_of bs s \<longrightarrow> entry_of rp s \<in> set out))"
proof -
  let ?out = "take 10 (map (entry_of rp) (filter (new_site_of bs) hs))"
  from plain_keys_ok [OF assms(3)] plain_keys_ok [OF assms(4)]
  have ok: "list_all key_ok bs \<and> list_all head_ok hs" by simp
  have 1: "find_new_uninstrumented rp base head = Inr ?out"
    using find_new_char [OF assms(1,2), of rp] ok plain_filter [OF assms(3,4), of rp]
    by simp
  have 2: "\<forall>s \<in> set hs. site_triple s \<in> site_triple ` set bs \<longrightarrow>
      entry_triple (entry_of rp s) \<notin> entry_triple ` set ?out"
  proof (intro ballI impI notI)
    fix s
    assume s: "s \<in> set hs" and b: "site_triple s \<in> site_triple ` set bs"
      and e: "entry_triple (entry_of rp s) \<in> entry_triple ` set ?out"
    from e obtain x where x: "x \<in> set ?out" "entry_triple (entry_of rp s) = entry_triple x"
      by blast
    from x(1) have "x \<in> set (map (entry_of rp) (filter (new_site_of bs) hs))"
      by (rule in_set_takeD)
    then obtain q where q: "q \<in> set hs" "new_site_of bs q" "x = entry_of rp q" by auto
    from assms(4) s q(1) have "plain_site s" "plain_site q" by (simp_all add: list_all_iff)
    with x(2) q(3) have "site_triple s = site_triple q"
      by (intro plain_entry_triple_inj [of s q rp]) simp_all
    with b q(2) show False by (simp add: new_site_of_def)
  qed
  have 3: "length (filter (new_site_of bs) hs) \<le> 10 \<longrightarrow>
      (\<forall>s \<in> set hs. new_site_of bs s \<longrightarrow> entry_of rp s \<in> set ?out)"
    by auto
  from 1 2 3 show ?thesis by blast
qed

text \<open>
  The site \<^verbatim>\<open>app.py:42\<close> is in both documents, with another provider and instrumented in
  the head: only \<^verbatim>\<open>new.py:10\<close> is reported.
\<close>

theorem new_uninstrumented_by_triple_witness:
  "\<exists>out. find_new_uninstrumented (\<lambda>v. [])
      (JObj [(''scan'', JObj [(''sites'', JArr [
         JObj [(''file'', JStr ''app.py''), (''line'', JInt 42), (''call'', JStr ''create''),
               (''provider'', JStr ''openai''), (''instrumented'', JBool False)]])])])
      (JObj [(''scan'', JObj [(''sites'', JArr [
         JObj [(''file'', JStr ''app.py''), (''line'', JInt 42), (''call'', JStr ''create''),
               (''provider'', JStr ''anthropic''), (''instrumented'', JBool True)],
         JObj [(''file'', JStr ''new.py''), (''line'', JInt 10), (''call'', JStr ''create''),
               (''provider'', JStr ''openai''), (''instrumented'', JBool False)]])])]) = Inr out \<and>
     out = [\<lparr> s_file = JStr ''new.py'', s_line = ''10'', s_call = JStr ''create'',
              s_provider = JStr ''openai'' \<rparr>]"
proof -
  let ?b = "[(''file'', JStr ''app.py''), (''line'', JInt 42), (''call'', JStr ''create''),
               (''provider'', JStr ''openai''), (''instrumented'', JBool False)]"
  let ?h1 = "[(''file'', JStr ''app.py''), (''line'', JInt 42), (''call'', JStr ''create''),
               (''provider'', JStr ''anthropic''), (''instrumented'', JBool True)]"
  let ?h2 = "[(''file'', JStr ''new.py''), (''line'', JInt 10), (''call'', JStr ''create''),
               (''provider'', JStr ''openai''), (''instrumented'', JBool False)]"
  have b: "sites_of (JObj [(''scan'', JObj [(''sites'', JArr [JObj ?b])])]) = Inr (map JObj [?b])"
    by (simp add: sites_of_def site_list_def dict_get_def)
  have h: "sites_of (JObj [(''scan'', JObj [(''sites'', JArr [JObj ?h1, JObj ?h2])])])
             = Inr (map JObj [?h1, ?h2])"
    by (simp add: sites_of_def site_list_def dict_get_def)
  have pb: "list_all plain_site [?b]" and ph: "list_all plain_site [?h1, ?h2]"
    by (simp_all add: plain_site_def int_fits_small)
  from new_uninstrumented_by_triple [OF b h pb ph, of "\<lambda>v. []"]
  show ?thesis
    by (simp add: new_site_of_def site_triple_def dict_get_def entry_of_def text_eval)
qed

text \<open>
  The claim as stated fails at the cap. Of eleven plain sites \<^verbatim>\<open>f0.py\<close>, ..., \<^verbatim>\<open>f10.py\<close>
  in the head document, none instrumented and none in the base document, the first ten
  are reported and the site \<^verbatim>\<open>f10.py\<close> is not.
\<close>

theorem new_uninstrumented_cap_counterexample:
  "find_new_uninstrumented (\<lambda>v. []) (JObj [(''sites'', JArr [])])
      (JObj [(''sites'', JArr (map (\<lambda>i. JObj [(''file'', JStr (''f'' @ str_int i @ ''.py'')),
          (''line'', JInt i), (''call'', JStr ''x''), (''instrumented'', JBool False)]) [0..10]))])
     = Inr (map (\<lambda>i. \<lparr> s_file = JStr (''f'' @ str_int i @ ''.py''), s_line = str_int i,
                         s_call = JStr ''x'', s_provider = JStr ''unknown'' \<rparr>) [0..9]) \<and>
   [(''file'', JStr ''f10.py''), (''line'', JInt 10), (''call'', JStr ''x''),
    (''instrumented'', JBool False)]
     \<in> set (map (\<lambda>i. [(''file'', JStr (''f'' @ str_int i @ ''.py'')),
          (''line'', JInt i), (''call'', JStr ''x''), (''instrumented'', JBool False)]) [0..10]) \<and>
   plain_site [(''file'', JStr ''f10.py''), (''line'', JInt 10), (''call'', JStr ''x''),
               (''instrumented'', JBool False)] \<and>
   new_site_of [] [(''file'', JStr ''f10.py''), (''line'', JInt 10), (''call'', JStr ''x''),
               (''instrumented'', JBool False)] \<and>
   \<lparr> s_file = JStr ''f10.py'', s_line = ''10'', s_call = JStr ''x'',
     s_provider = JStr ''unknown'' \<rparr>
     \<notin> set (map (\<lambda>i. \<lparr> s_file = JStr (''f'' @ str_int i @ ''.py''), s_line = str_int i,
                         s_call = JStr ''x'', s_provider = JStr ''unknown'' \<rparr>) [0..9])"
  by (simp add: find_eval new_site_of_def plain_site_def upto.simps)

section \<open>The delta record\<close>

lemma compute_delta_fields:
  assumes "compute_delta base head = Inr d"
  shows "scan_value base ''sites_total'' = Inr (m_base (sites_total d))"
    and "scan_value head ''sites_total'' = Inr (m_head (sites_total d))"
    and "scan_value base ''instrumented'' = Inr (m_base (instrumented d))"
    and "scan_value head ''instrumented'' = Inr (m_head (instrumented d))"
    and "scan_value base ''uninstrumented'' = Inr (m_base (uninstrumented d))"
    and "scan_value head ''uninstrumented'' = Inr (m_head (uninstrumented d))"
    and "score_value base ''score'' (JInt 0) = Inr (m_base (score d))"
    and "score_value head ''score'' (JInt 0) = Inr (m_head (score d))"
    and "score_value base ''grade'' (JStr ''?'') = Inr (p_base (grade d))"
    and "score_value head ''grade'' (JStr ''?'') = Inr (p_head (grade d))"
  using assms
  by (auto simp: compute_delta_def and_then_eq_Inr scan_value_def score_value_def)

lemma compute_delta_deltas:
  assumes "compute_delta base head = Inr d"
  shows "py_sub (m_head (sites_total d)) (m_base (sites_total d)) = Inr (m_delta (sites_total d))"
    and "py_sub (m_head (instrumented d)) (m_base (instrumented d)) = Inr (m_delta (instrumented d))"
    and "py_sub (m_head (uninstrumented d)) (m_base (uninstrumented d)) = Inr (m_delta (uninstrumented d))"
    and "\<exists>raw. py_sub (m_head (score d)) (m_base (score d)) = Inr raw \<and> py_round1 raw = Inr (m_delta (score d))"
    and "coverage (m_base (instrumented d)) (m_base (sites_total d)) = Inr (p_base (coverage_pct d))"
    and "coverage (m_head (instrumented d)) (m_head (sites_total d)) = Inr (p_head (coverage_pct d))"
  using assms
  by (auto simp: compute_delta_def and_then_eq_Inr)

lemma coverage_cases:
  "coverage instr sites = Inr c \<longleftrightarrow>
     (py_gt0 sites = Inr True \<and> pct instr sites = Inr c) \<or>
     (py_gt0 sites = Inr False \<and> c = JInt 0)"
  by (cases "py_gt0 sites") (auto simp: coverage_def pct_def)

lemma py_gt0_zero [simp]: "py_gt0 (JInt 0) = Inr False"
  by (simp add: py_gt0_def)

text \<open>
  Claim C6. In the record that \<^verbatim>\<open>compute_delta\<close> returns, the score entry holds the two
  scores read from the documents (0 when absent) and its delta is \<^verbatim>\<open>round(head - base, 1)\<close>;
  the deltas of the three counts are the plain differences \<^verbatim>\<open>head - base\<close>.
\<close>

theorem score_delta_is_rounded_difference:
  assumes "compute_delta base head = Inr d"
  shows "score_value base ''score'' (JInt 0) = Inr (m_base (score d)) \<and>
         score_value head ''score'' (JInt 0) = Inr (m_head (score d)) \<and>
         (\<exists>raw. py_sub (m_head (score d)) (m_base (score d)) = Inr raw \<and>
                 py_round1 raw = Inr (m_delta (score d))) \<and>
         py_sub (m_head (sites_total d)) (m_base (sites_total d)) = Inr (m_delta (sites_total d)) \<and>
         py_sub (m_head (instrumented d)) (m_base (instrumented d))
           = Inr (m_delta (instrumented d)) \<and>
         py_sub (m_head (uninstrumented d)) (m_base (uninstrumented d))
           = Inr (m_delta (uninstrumented d))"
  using compute_delta_fields [OF assms] compute_delta_deltas [OF assms] by simp

text \<open>
  Scores 17.5 and 12.25: the difference \<^verbatim>\<open>-5.25\<close> is a tie and rounds to the float of
  \<^verbatim>\<open>-5.2\<close>; the counts go from 10, 5, 5 to 8, 6, 2.
\<close>

theorem score_delta_is_rounded_difference_witness:
  "fl_round False (26 / 5) = FFin False (5854679515581645 / 1125899906842624) \<and>
   (\<exists>d. compute_delta
          (JObj [(''scan'', JObj [(''summary'', JObj [(''sites_total'', JInt 10),
                    (''instrumented'', JInt 5), (''uninstrumented'', JInt 5)])]),
                 (''score'', JObj [(''score'', JFloat (FFin False (35 / 2))), (''grade'', JStr ''F'')])])
          (JObj [(''scan'', JObj [(''summary'', JObj [(''sites_total'', JInt 8),
                    (''instrumented'', JInt 6), (''uninstrumented'', JInt 2)])]),
                 (''score'', JObj [(''score'', JFloat (FFin False (49 / 4))), (''grade'', JStr ''F'')])])
           = Inr d \<and>
         py_sub (JFloat (FFin False (49 / 4))) (JFloat (FFin False (35 / 2)))
           = Inr (JFloat (FFin True (21 / 4))) \<and>
         py_round1 (JFloat (FFin True (21 / 4)))
           = Inr (JFloat (FFin True (5854679515581645 / 1125899906842624))) \<and>
         m_delta (score d) = JFloat (FFin True (5854679515581645 / 1125899906842624)) \<and>
         m_delta (sites_total d) = JInt (- 2) \<and> m_delta (instrumented d) = JInt 1 \<and>
         m_delta (uninstrumented d) = JInt (- 3))"
proof -
  have lit: "fl_round False (26 / 5) = FFin False (5854679515581645 / 1125899906842624)"
    by (simp add: fl_eval)
  let ?base = "JObj [(''scan'', JObj [(''summary'', JObj [(''sites_total'', JInt 10),
                (''instrumented'', JInt 5), (''uninstrumented'', JInt 5)])]),
             (''score'', JObj [(''score'', JFloat (FFin False (35 / 2))), (''grade'', JStr ''F'')])]"
  let ?head = "JObj [(''scan'', JObj [(''summary'', JObj [(''sites_total'', JInt 8),
                (''instrumented'', JInt 6), (''uninstrumented'', JInt 2)])]),
             (''score'', JObj [(''score'', JFloat (FFin False (49 / 4))), (''grade'', JStr ''F'')])]"
  obtain d where d: "compute_delta ?base ?head = Inr d"
    by (simp add: delta_eval)
  have f: "m_base (score d) = JFloat (FFin False (35 / 2))"
      "m_head (score d) = JFloat (FFin False (49 / 4))"
      "m_base (sites_total d) = JInt 10" "m_head (sites_total d) = JInt 8"
      "m_base (instrumented d) = JInt 5" "m_head (instrumented d) = JInt 6"
      "m_base (uninstrumented d) = JInt 5" "m_head (uninstrumented d) = JInt 2"
    using d by (auto simp: delta_eval)
  have s: "py_sub (JFloat (FFin False (49 / 4))) (JFloat (FFin False (35 / 2)))
       = Inr (JFloat (FFin True (21 / 4)))"
    by (simp add: py_sub_def fl_eval)
  have r: "py_round1 (JFloat (FFin True (21 / 4)))
       = Inr (JFloat (FFin True (5854679515581645 / 1125899906842624)))"
    by (simp add: py_round1_def fl_eval)
  from score_delta_is_rounded_difference [OF d] f s r
  have "m_delta (score d) = JFloat (FFin True (5854679515581645 / 1125899906842624))"
    and "m_delta (sites_total d) = JInt (- 2)" and "m_delta (instrumented d) = JInt 1"
    and "m_delta (uninstrumented d) = JInt (- 3)"
    by (auto simp: py_sub_def)
  with d s r lit show ?thesis by blast
qed

text \<open>
  Claim C5, as the code has it. For each side on its own, the coverage is the percentage
  \<open>pct\<close> of the side's instrumented count and total when the total is greater than 0,
  and the integer 0 when it is not: in particular when the total is 0, whatever the
  instrumented count.
\<close>

theorem coverage_pct_guarded_by_positive_total:
  assumes "compute_delta base head = Inr d"
  shows "scan_value base ''sites_total'' = Inr (m_base (sites_total d)) \<and>
         scan_value base ''instrumented'' = Inr (m_base (instrumented d)) \<and>
         scan_value head ''sites_total'' = Inr (m_head (sites_total d)) \<and>
         scan_value head ''instrumented'' = Inr (m_head (instrumented d)) \<and>
         (py_gt0 (m_base (sites_total d)) = Inr True \<and>
            pct (m_base (instrumented d)) (m_base (sites_total d))
              = Inr (p_base (coverage_pct d)) \<or>
          py_gt0 (m_base (sites_total d)) = Inr False \<and> p_base (coverage_pct d) = JInt 0) \<and>
         (py_gt0 (m_head (sites_total d)) = Inr True \<and>
            pct (m_head (instrumented d)) (m_head (sites_total d))
              = Inr (p_head (coverage_pct d)) \<or>
          py_gt0 (m_head (sites_total d)) = Inr False \<and> p_head (coverage_pct d) = JInt 0) \<and>
         (m_base (sites_total d) = JInt 0 \<longrightarrow> p_base (coverage_pct d) = JInt 0) \<and>
         (m_head (sites_total d) = JInt 0 \<longrightarrow> p_head (coverage_pct d) = JInt 0)"
proof -
  note f = compute_delta_fields [OF assms]
  note c = compute_delta_deltas(5,6) [OF assms]
  from c(1) have b: "py_gt0 (m_base (sites_total d)) = Inr True \<and>
            pct (m_base (instrumented d)) (m_base (sites_total d))
              = Inr (p_base (coverage_pct d)) \<or>
          py_gt0 (m_base (sites_total d)) = Inr False \<and> p_base (coverage_pct d) = JInt 0"
    by (simp add: coverage_cases)
  from c(2) have h: "py_gt0 (m_head (sites_total d)) = Inr True \<and>
            pct (m_head (instrumented d)) (m_head (sites_total d))
              = Inr (p_head (coverage_pct d)) \<or>
          py_gt0 (m_head (sites_total d)) = Inr False \<and> p_head (coverage_pct d) = JInt 0"
    by (simp add: coverage_cases)
  from b have b0: "m_base (sites_total d) = JInt 0 \<longrightarrow> p_base (coverage_pct d) = JInt 0"
    by auto
  from h have h0: "m_head (sites_total d) = JInt 0 \<longrightarrow> p_head (coverage_pct d) = JInt 0"
    by auto
  from f(1,3,2,4) b h b0 h0 show ?thesis by blast
qed

text \<open>
  A base with no sites and 3 instrumented has coverage 0; a head with 10 of 15 has the
  float of 66.7.
\<close>

theorem coverage_pct_guarded_by_positive_total_witness:
  "fl_round False (667 / 10) = FFin False (4693595236650189 / 70368744177664) \<and>
   (\<exists>d. compute_delta
          (JObj [(''scan'', JObj [(''sites_total'', JInt 0), (''instrumented'', JInt 3)])])
          (JObj [(''scan'', JObj [(''summary'', JObj [(''sites_total'', JInt 15),
                    (''instrumented'', JInt 10), (''uninstrumented'', JInt 5)])])])
           = Inr d \<and>
         p_base (coverage_pct d) = JInt 0 \<and>
         pct (JInt 10) (JInt 15) = Inr (JFloat (FFin False (4693595236650189 / 70368744177664))) \<and>
         p_head (coverage_pct d) = JFloat (FFin False (4693595236650189 / 70368744177664)))"
proof -
  have lit: "fl_round False (667 / 10) = FFin False (4693595236650189 / 70368744177664)"
    by (simp add: fl_eval)
  let ?base = "JObj [(''scan'', JObj [(''sites_total'', JInt 0), (''instrumented'', JInt 3)])]"
  let ?head = "JObj [(''scan'', JObj [(''summary'', JObj [(''sites_total'', JInt 15),
                (''instrumented'', JInt 10), (''uninstrumented'', JInt 5)])])]"
  obtain d where d: "compute_delta ?base ?head = Inr d"
    by (simp add: delta_eval)
  have f: "m_base (sites_total d) = JInt 0" "m_head (sites_total d) = JInt 15"
      "m_head (instrumented d) = JInt 10"
    using d by (auto simp: delta_eval)
  have p: "pct (JInt 10) (JInt 15)
      = Inr (JFloat (FFin False (4693595236650189 / 70368744177664)))"
    by (simp add: pct_def py_truediv_def fl_eval)
  from coverage_pct_guarded_by_positive_total [OF d] f p
  have "p_base (coverage_pct d) = JInt 0"
    and "p_head (coverage_pct d) = JFloat (FFin False (4693595236650189 / 70368744177664))"
    by (auto simp: py_gt0_def)
  with d p lit show ?thesis by blast
qed

text \<open>
  A total of \<open>-4\<close> is not zero, the percentage of 1 in \<open>-4\<close> is \<^verbatim>\<open>-25.0\<close>, and the
  coverage is 0.
\<close>

theorem coverage_pct_nonzero_total_counterexample:
  "compute_delta
      (JObj [(''scan'', JObj [(''sites_total'', JInt (- 4)), (''instrumented'', JInt 1)])])
      (JObj [])
     = Inr \<lparr> sites_total = \<lparr> m_base = JInt (- 4), m_head = JInt 0, m_delta = JInt 4 \<rparr>,
             instrumented = \<lparr> m_base = JInt 1, m_head = JInt 0, m_delta = JInt (- 1) \<rparr>,
             uninstrumented = \<lparr> m_base = JInt 0, m_head = JInt 0, m_delta = JInt 0 \<rparr>,
             score = \<lparr> m_base = JInt 0, m_head = JInt 0, m_delta = JInt 0 \<rparr>,
             grade = \<lparr> p_base = JStr ''?'', p_head = JStr ''?'' \<rparr>,
             coverage_pct = \<lparr> p_base = JInt 0, p_head = JInt 0 \<rparr> \<rparr> \<and>
   JInt (- 4) \<noteq> JInt 0 \<and>
   pct (JInt 1) (JInt (- 4)) = Inr (JFloat (FFin True 25)) \<and>
   py_ne (JFloat (FFin True 25)) (JInt 0)"
  by (simp add: delta_eval pct_def py_ne_def fl_val_def)

subsection \<open>Missing fields\<close>

lemma nbits_lower: "0 < n \<Longrightarrow> 2 ^ (nbits n - 1) \<le> n"
proof (induction n rule: nbits.induct)
  case (1 n)
  show ?case
  proof (cases "n div 2 = 0")
    case True
    with 1(2) have "n = 1" by (simp add: div_eq_0_iff) 
    then show ?thesis by (simp add: nbits.simps)
  next
    case False
    then have h: "0 < n div 2" by simp
    with 1 have ih: "2 ^ (nbits (n div 2) - 1) \<le> n div 2" by simp
    from h have "0 < nbits (n div 2)" by (subst nbits.simps) simp
    then have "nbits n - 1 = Suc (nbits (n div 2) - 1)"
      using 1(2) by (subst nbits.simps) simp
    then have "(2::nat) ^ (nbits n - 1) = 2 * 2 ^ (nbits (n div 2) - 1)" by simp
    also have "\<dots> \<le> 2 * (n div 2)" using ih by simp
    also have "\<dots> \<le> n" by simp
    finally show ?thesis .
  qed
qed

lemma pow2_pos: "0 < pow2 e"
  by (simp add: pow2_def)

lemma pow2_le_one: "e \<le> 0 \<Longrightarrow> pow2 e \<le> 1"
  by (auto simp: pow2_def divide_le_eq_1 one_le_power)

lemma pow2_ilog2_le:
  assumes "1 \<le> r"
  shows "pow2 (ilog2 r - 52) \<le> r"
proof -
  let ?m = "nat \<lfloor>r\<rfloor>"
  from assms have m: "0 < ?m" by simp
  have il: "ilog2 r = int (nbits ?m) - 1" using assms by (simp add: ilog2_def)
  from m have nb: "0 < nbits ?m" by (subst nbits.simps) simp
  have "(2::rat) ^ (nbits ?m - 1) = of_nat (2 ^ (nbits ?m - 1))" by simp
  also have "\<dots> \<le> of_nat ?m" using nbits_lower [OF m] by (simp only: of_nat_le_iff)
  also have "\<dots> = of_int \<lfloor>r\<rfloor>" using assms by simp
  also have "\<dots> \<le> r" by simp
  finally have up: "(2::rat) ^ (nbits ?m - 1) \<le> r" .
  show ?thesis
  proof (cases "0 \<le> ilog2 r - 52")
    case True
    then have "nat (ilog2 r - 52) \<le> nbits ?m - 1" using il by simp
    then have "(2::rat) ^ nat (ilog2 r - 52) \<le> 2 ^ (nbits ?m - 1)"
      by (intro power_increasing) simp_all
    also note up
    finally show ?thesis using True by (simp add: pow2_def)
  next
    case False
    then have "pow2 (ilog2 r - 52) \<le> 1" by (simp add: pow2_le_one)
    with assms show ?thesis by simp
  qed
qed

lemma round_half_even_bounds:
  assumes "0 \<le> x"
  shows "0 \<le> round_half_even x" and "of_int (round_half_even x) \<le> x + 1 / 2"
proof -
  have f: "0 \<le> \<lfloor>x\<rfloor>" using assms by simp
  then show "0 \<le> round_half_even x" by (simp add: round_half_even_def Let_def)
  have le: "of_int \<lfloor>x\<rfloor> \<le> x" by simp
  show "of_int (round_half_even x) \<le> x + 1 / 2"
  proof (cases "x - of_int \<lfloor>x\<rfloor> < 1 / 2")
    case True
    then have "round_half_even x = \<lfloor>x\<rfloor>" by (simp add: round_half_even_def Let_def)
    moreover have "of_int \<lfloor>x\<rfloor> \<le> x + 1 / 2"
      using of_int_floor_le [of x] by linarith
    ultimately show ?thesis by simp
  next
    case False
    then have "of_int (round_half_even x) \<le> (of_int \<lfloor>x\<rfloor> :: rat) + 1"
      by (simp add: round_half_even_def Let_def)
    also from False have "\<dots> \<le> x + 1 / 2" by linarith
    finally show ?thesis .
  qed
qed

lemma fl_round_bound:
  assumes "0 \<le> r" "r \<le> B" "1 \<le> B" "2 * B < 2 ^ 1024"
  shows "\<exists>v. fl_round s r = FFin s v \<and> 0 \<le> v \<and> v \<le> 2 * B"
proof (cases "r = 0")
  case True
  with assms show ?thesis by (simp add: fl_round_def)
next
  case False
  define e where "e = max (ilog2 r - 52) (- 1074)"
  define v where "v = of_int (round_half_even (r / pow2 e)) * pow2 e"
  have p: "0 < pow2 e" by (rule pow2_pos)
  have pB: "pow2 e \<le> B"
  proof (cases "1 \<le> r")
    case True
    have "pow2 (- 1074) \<le> 1" by (simp add: pow2_le_one)
    with pow2_ilog2_le [OF True] assms(2,3) show ?thesis
      by (auto simp: e_def max_def)
  next
    case False
    then have "ilog2 r \<le> 0" by (simp add: ilog2_def)
    then have "e \<le> 0" by (simp add: e_def)
    then have "pow2 e \<le> 1" by (rule pow2_le_one)
    with assms(3) show ?thesis by simp
  qed
  have x: "0 \<le> r / pow2 e" using assms(1) p by simp
  from round_half_even_bounds [OF x] have n0: "0 \<le> round_half_even (r / pow2 e)"
    and n1: "of_int (round_half_even (r / pow2 e)) \<le> r / pow2 e + 1 / 2" by simp_all
  have v0: "0 \<le> v" using n0 p by (simp add: v_def)
  have "v \<le> (r / pow2 e + 1 / 2) * pow2 e"
    unfolding v_def using n1 p by (simp add: mult_right_mono)
  also have "\<dots> = r + pow2 e / 2" using p by (simp add: field_simps)
  also have "\<dots> \<le> B + B / 2" using assms(2) pB by simp
  also have "\<dots> \<le> 2 * B" using assms(3) by simp
  finally have v1: "v \<le> 2 * B" .
  with assms(4) have "\<not> 2 ^ 1024 \<le> v" by simp
  with False v0 v1 show ?thesis
    by (simp add: fl_round_def Let_def e_def [symmetric] v_def [symmetric])
qed

lemma is_dict_items: "is_dict v \<Longrightarrow> v = JObj (items v)"
  by (cases v) simp_all

lemma dict_shaped_summary:
  assumes "dict_shaped doc"
  shows "scan_summary doc = Inr (JObj (summary_source doc))"
proof -
  from assms obtain kvs where doc: "doc = JObj kvs"
    by (cases doc) (simp_all add: dict_shaped_def)
  show ?thesis
  proof (cases "map_of kvs ''scan''")
    case None
    with doc show ?thesis
      by (simp add: scan_summary_def summary_source_def dict_get_def)
  next
    case (Some scan)
    with assms doc obtain skvs where scan: "scan = JObj skvs"
      by (cases scan) (simp_all add: dict_shaped_def)
    show ?thesis
    proof (cases "map_of skvs ''summary''")
      case None
      with doc Some scan show ?thesis
        by (simp add: scan_summary_def summary_source_def dict_get_def)
    next
      case (Some s)
      with assms doc \<open>map_of kvs ''scan'' = Some scan\<close> scan have "s = JObj (items s)"
        by (intro is_dict_items) (simp add: dict_shaped_def)
      with doc Some \<open>map_of kvs ''scan'' = Some scan\<close> scan show ?thesis
        by (simp add: scan_summary_def summary_source_def dict_get_def)
    qed
  qed
qed

lemma dict_shaped_score:
  assumes "dict_shaped doc"
  shows "py_get doc ''score'' (JObj []) = Inr (JObj (score_source doc))"
proof -
  from assms obtain kvs where doc: "doc = JObj kvs"
    by (cases doc) (simp_all add: dict_shaped_def)
  show ?thesis
  proof (cases "map_of kvs ''score''")
    case None
    with doc show ?thesis by (simp add: score_source_def dict_get_def)
  next
    case (Some s)
    with assms doc have "s = JObj (items s)"
      by (intro is_dict_items) (simp add: dict_shaped_def)
    with doc Some show ?thesis by (simp add: score_source_def dict_get_def)
  qed
qed

lemma dict_shaped_sites:
  assumes "dict_shaped doc" and "\<not> has_sites doc"
  shows "sites_of doc = Inr []"
proof -
  from assms obtain kvs where doc: "doc = JObj kvs"
    by (cases doc) (simp_all add: dict_shaped_def)
  show ?thesis
  proof (cases "map_of kvs ''scan''")
    case None
    with doc assms(2) show ?thesis
      by (simp add: sites_of_def site_list_def dict_get_def has_sites_def)
  next
    case (Some scan)
    with assms doc obtain skvs where scan: "scan = JObj skvs"
      by (cases scan) (simp_all add: dict_shaped_def)
    with doc Some assms(2) show ?thesis
      by (simp add: sites_of_def site_list_def dict_get_def has_sites_def)
  qed
qed

lemma count_ok_zero [simp]: "count_ok (JInt 0)"
  by (simp add: count_ok_def)

lemma score_ok_zero [simp]: "score_ok (JInt 0)"
  by (simp add: score_ok_def)

lemma present_ok_get: "present_ok ok kvs k \<Longrightarrow> ok dflt \<Longrightarrow> ok (dict_get kvs k dflt)"
  by (simp add: present_ok_def dict_get_def split: option.splits)

lemma count_ok_sub: "count_ok a \<Longrightarrow> count_ok b \<Longrightarrow> \<exists>x. py_sub a b = Inr x"
  by (cases a; cases b) (simp_all add: count_ok_def py_sub_def)

lemma int_to_float_bound:
  assumes "\<bar>n\<bar> \<le> 2 ^ 1000"
  shows "\<exists>v. int_to_float n = Inr (FFin (n < 0) v) \<and> 0 \<le> v \<and> v \<le> 2 ^ 1001"
proof -
  have "(of_int \<bar>n\<bar> :: rat) \<le> of_int (2 ^ 1000)" using assms by (simp only: of_int_le_iff)
  then have "(of_int \<bar>n\<bar> :: rat) \<le> 2 ^ 1000" by simp
  from fl_round_bound [OF _ this, of "n < 0"] obtain v where
    "fl_round (n < 0) (of_int \<bar>n\<bar>) = FFin (n < 0) v" "0 \<le> v" "v \<le> 2 * 2 ^ 1000"
    by auto
  then show ?thesis by (simp add: int_to_float_def)
qed

lemma score_ok_float:
  assumes "score_ok a"
  shows "\<exists>n. a = JInt n \<and> \<bar>n\<bar> \<le> 2 ^ 1000 \<or>
         (\<exists>s v. a = JFloat (FFin s v) \<and> 0 \<le> v \<and> v \<le> 2 ^ 1000)"
  using assms by (auto simp: score_ok_def split: json.splits pyfloat.splits)

lemma score_to_float:
  assumes "score_ok a"
  shows "\<exists>x. as_num a = Some x \<and>
           (\<exists>s v. to_float x = Inr (FFin s v) \<and> 0 \<le> v \<and> v \<le> 2 ^ 1001)"
proof -
  from score_ok_float [OF assms] consider n where "a = JInt n" "\<bar>n\<bar> \<le> 2 ^ 1000"
    | s v where "a = JFloat (FFin s v)" "0 \<le> v" "v \<le> 2 ^ 1000"
    by blast
  then show ?thesis
  proof cases
    case 1
    with int_to_float_bound [OF 1(2)] show ?thesis by auto
  next
    case 2
    have "v \<le> 2 ^ 1001" using 2(3) by simp
    with 2 show ?thesis by auto
  qed
qed

lemma fl_add_bound:
  assumes "0 \<le> a" "a \<le> 2 ^ 1001" "0 \<le> b" "b \<le> 2 ^ 1001"
  shows "\<exists>u w. fl_add (FFin s a) (FFin t b) = FFin u w \<and> 0 \<le> w \<and> w \<le> 2 ^ 1003"
proof -
  have B: "(1::rat) \<le> 2 ^ 1002" "2 * (2::rat) ^ 1002 < 2 ^ 1024" by simp_all
  have r: "0 \<le> r \<Longrightarrow> r \<le> 2 ^ 1002 \<Longrightarrow>
      \<exists>w. fl_round u r = FFin u w \<and> 0 \<le> w \<and> w \<le> 2 ^ 1003" for u r
    using fl_round_bound [OF _ _ B, of r u] by simp
  have s1: "a + b \<le> 2 ^ 1002" using assms by simp
  have s2: "a - b \<le> 2 ^ 1002" "b - a \<le> 2 ^ 1002" using assms by simp_all
  show ?thesis
  proof (cases "s = t")
    case True
    with r [of "a + b" s] assms s1 show ?thesis by auto
  next
    case False
    consider "b < a" | "a < b" | "a = b" by linarith
    then show ?thesis
    proof cases
      case 1
      with r [of "a - b" s] s2 False show ?thesis by auto
    next
      case 2
      with r [of "b - a" t] s2 False show ?thesis by auto
    next
      case 3
      with False show ?thesis by auto
    qed
  qed
qed

lemma round1_float_bound:
  assumes "0 \<le> a" "a \<le> 2 ^ 1010"
  shows "\<exists>w. round1_float (FFin s a) = Inr (FFin s w)"
proof -
  have x: "0 \<le> a * 10" using assms by simp
  from round_half_even_bounds [OF x]
  have n: "0 \<le> round_half_even (a * 10)" "of_int (round_half_even (a * 10)) \<le> a * 10 + 1 / 2"
    by simp_all
  then have "of_int (round_half_even (a * 10)) / 10 \<le> a + 1 / 20" by simp
  also have "\<dots> \<le> 2 ^ 1011" using assms(2) by simp
  finally have "of_int (round_half_even (a * 10)) / 10 \<le> (2::rat) ^ 1011" .
  moreover have "(0::rat) \<le> of_int (round_half_even (a * 10)) / 10" using n(1) by simp
  ultimately obtain w where "fl_round s (of_int (round_half_even (a * 10)) / 10) = FFin s w"
    using fl_round_bound [of "of_int (round_half_even (a * 10)) / 10" "2 ^ 1011" s] by auto
  then show ?thesis by (simp add: round1_float_def)
qed

lemma num_sub_float:
  assumes "\<not> (\<exists>m n. x = NInt m \<and> y = NInt n)"
  shows "num_sub x y =
           and_then (to_float x) (\<lambda>f. and_then (to_float y) (\<lambda>g. Inr (JFloat (fl_sub f g))))"
  using assms by (cases x; cases y) simp_all

lemma score_ok_delta:
  assumes "score_ok a" "score_ok b"
  shows "\<exists>x y. py_sub a b = Inr x \<and> py_round1 x = Inr y"
proof -
  from score_to_float [OF assms(1)] obtain x s v where
    x: "as_num a = Some x" "to_float x = Inr (FFin s v)" "0 \<le> v" "v \<le> 2 ^ 1001"
    by blast
  from score_to_float [OF assms(2)] obtain y t u where
    y: "as_num b = Some y" "to_float y = Inr (FFin t u)" "0 \<le> u" "u \<le> 2 ^ 1001"
    by blast
  show ?thesis
  proof (cases "\<exists>m n. x = NInt m \<and> y = NInt n")
    case True
    with x(1) y(1) show ?thesis by (auto simp: py_sub_def py_round1_def)
  next
    case False
    from fl_add_bound [OF x(3,4) y(3,4), of s "\<not> t"] obtain p w where
      w: "fl_sub (FFin s v) (FFin t u) = FFin p w" "0 \<le> w" "w \<le> 2 ^ 1003"
      by (auto simp: fl_sub_def)
    have "w \<le> 2 ^ 1010" using w(3) by simp
    from round1_float_bound [OF w(2) this, of p] obtain z where
      "round1_float (FFin p w) = Inr (FFin p z)" by blast
    with x y w num_sub_float [OF False] show ?thesis
      by (simp add: py_sub_def py_round1_def)
  qed
qed

lemma count_ok_coverage:
  assumes "count_ok i" "count_ok t"
  shows "\<exists>c. coverage i t = Inr c"
proof -
  from assms obtain m n where i: "i = JInt m" "\<bar>m\<bar> \<le> 2 ^ 1000" and t: "t = JInt n"
    by (auto simp: count_ok_def split: json.splits)
  show ?thesis
  proof (cases "0 < n")
    case False
    with t show ?thesis by (simp add: coverage_def py_gt0_def)
  next
    case True
    then have n1: "1 \<le> (of_int \<bar>n\<bar> :: rat)" by simp
    have "(of_int \<bar>m\<bar> :: rat) / of_int \<bar>n\<bar> \<le> of_int \<bar>m\<bar> / 1"
      using n1 by (intro divide_left_mono) simp_all
    then have "(of_int \<bar>m\<bar> :: rat) / of_int \<bar>n\<bar> \<le> of_int \<bar>m\<bar>"
      by simp
    also have "\<dots> \<le> of_int (2 ^ 1000)" using i(2) by (simp only: of_int_le_iff)
    finally have "(of_int \<bar>m\<bar> :: rat) / of_int \<bar>n\<bar> \<le> 2 ^ 1000" by simp
    moreover have "(0::rat) \<le> of_int \<bar>m\<bar> / of_int \<bar>n\<bar>" by simp
    ultimately obtain q where
      q: "fl_round ((m < 0) \<noteq> (n < 0)) (of_int \<bar>m\<bar> / of_int \<bar>n\<bar>) = FFin ((m < 0) \<noteq> (n < 0)) q"
        "0 \<le> q" "q \<le> 2 * 2 ^ 1000"
      using fl_round_bound [of "of_int \<bar>m\<bar> / of_int \<bar>n\<bar>" "2 ^ 1000" "(m < 0) \<noteq> (n < 0)"]
      by auto
    have "q * 100 \<le> 2 ^ 1008" using q(3) by simp
    moreover have "0 \<le> q * 100" using q(2) by simp
    ultimately obtain a where
      a: "fl_round (((m < 0) \<noteq> (n < 0)) \<noteq> False) (q * 100)
            = FFin (((m < 0) \<noteq> (n < 0)) \<noteq> False) a" "0 \<le> a" "a \<le> 2 * 2 ^ 1008"
      using fl_round_bound [of "q * 100" "2 ^ 1008" "((m < 0) \<noteq> (n < 0)) \<noteq> False"]
      by auto
    have "a \<le> 2 ^ 1010" using a(3) by simp
    from round1_float_bound [OF a(2) this] obtain z where
      "round1_float (FFin (((m < 0) \<noteq> (n < 0)) \<noteq> False) a)
         = Inr (FFin (((m < 0) \<noteq> (n < 0)) \<noteq> False) z)"
      by blast
    with True i t q a show ?thesis
      by (simp add: coverage_def py_gt0_def py_truediv_def)
  qed
qed

lemma fields_ok_values:
  assumes "fields_ok doc"
  shows "count_ok (dict_get (summary_source doc) ''sites_total'' (JInt 0))"
    and "count_ok (dict_get (summary_source doc) ''instrumented'' (JInt 0))"
    and "count_ok (dict_get (summary_source doc) ''uninstrumented'' (JInt 0))"
    and "score_ok (dict_get (score_source doc) ''score'' (JInt 0))"
  using assms by (simp_all add: fields_ok_def present_ok_get)

text \<open>
  Claim C2. For dict-shaped documents whose present numeric fields are in order,
  \<^verbatim>\<open>compute_delta\<close> returns, whichever fields are missing. Each scan-summary field of the
  result is the one of \<^verbatim>\<open>scan.summary\<close> when the document has that key and the one of
  \<^verbatim>\<open>scan\<close> otherwise, for each document on its own, and 0 when absent; the score is 0
  and the grade \<^verbatim>\<open>?\<close> when absent. A document with no \<^verbatim>\<open>sites\<close> key, neither under
  \<^verbatim>\<open>scan\<close> nor at the top, has the empty site list, and two such documents have no new
  sites.
\<close>

theorem missing_fields_take_defaults:
  assumes "dict_shaped base" and "dict_shaped head"
    and "fields_ok base" and "fields_ok head"
  shows "(\<exists>d. compute_delta base head = Inr d \<and>
            m_base (sites_total d) = dict_get (summary_source base) ''sites_total'' (JInt 0) \<and>
            m_head (sites_total d) = dict_get (summary_source head) ''sites_total'' (JInt 0) \<and>
            m_base (instrumented d) = dict_get (summary_source base) ''instrumented'' (JInt 0) \<and>
            m_head (instrumented d) = dict_get (summary_source head) ''instrumented'' (JInt 0) \<and>
            m_base (uninstrumented d)
              = dict_get (summary_source base) ''uninstrumented'' (JInt 0) \<and>
            m_head (uninstrumented d)
              = dict_get (summary_source head) ''uninstrumented'' (JInt 0) \<and>
            m_base (score d) = dict_get (score_source base) ''score'' (JInt 0) \<and>
            m_head (score d) = dict_get (score_source head) ''score'' (JInt 0) \<and>
            p_base (grade d) = dict_get (score_source base) ''grade'' (JStr ''?'') \<and>
            p_head (grade d) = dict_get (score_source head) ''grade'' (JStr ''?'')) \<and>
         (\<not> has_sites base \<longrightarrow> sites_of base = Inr []) \<and>
         (\<not> has_sites head \<longrightarrow> sites_of head = Inr []) \<and>
         (\<not> has_sites base \<and> \<not> has_sites head \<longrightarrow>
            find_new_uninstrumented rp base head = Inr [])"
proof -
  note b = fields_ok_values [OF assms(3)] and h = fields_ok_values [OF assms(4)]
  from count_ok_sub [OF h(1) b(1)] obtain d_sites where
    1: "py_sub (dict_get (summary_source head) ''sites_total'' (JInt 0))
          (dict_get (summary_source base) ''sites_total'' (JInt 0)) = Inr d_sites" ..
  from count_ok_sub [OF h(2) b(2)] obtain d_instr where
    2: "py_sub (dict_get (summary_source head) ''instrumented'' (JInt 0))
          (dict_get (summary_source base) ''instrumented'' (JInt 0)) = Inr d_instr" ..
  from count_ok_sub [OF h(3) b(3)] obtain d_uninstr where
    3: "py_sub (dict_get (summary_source head) ''uninstrumented'' (JInt 0))
          (dict_get (summary_source base) ''uninstrumented'' (JInt 0)) = Inr d_uninstr" ..
  from score_ok_delta [OF h(4) b(4)] obtain raw d_score where
    4: "py_sub (dict_get (score_source head) ''score'' (JInt 0))
          (dict_get (score_source base) ''score'' (JInt 0)) = Inr raw"
      "py_round1 raw = Inr d_score"
    by blast
  from count_ok_coverage [OF b(2) b(1)] obtain cov_base where
    5: "coverage (dict_get (summary_source base) ''instrumented'' (JInt 0))
          (dict_get (summary_source base) ''sites_total'' (JInt 0)) = Inr cov_base" ..
  from count_ok_coverage [OF h(2) h(1)] obtain cov_head where
    6: "coverage (dict_get (summary_source head) ''instrumented'' (JInt 0))
          (dict_get (summary_source head) ''sites_total'' (JInt 0)) = Inr cov_head" ..
  have d: "\<exists>d. compute_delta base head = Inr d \<and>
            m_base (sites_total d) = dict_get (summary_source base) ''sites_total'' (JInt 0) \<and>
            m_head (sites_total d) = dict_get (summary_source head) ''sites_total'' (JInt 0) \<and>
            m_base (instrumented d) = dict_get (summary_source base) ''instrumented'' (JInt 0) \<and>
            m_head (instrumented d) = dict_get (summary_source head) ''instrumented'' (JInt 0) \<and>
            m_base (uninstrumented d)
              = dict_get (summary_source base) ''uninstrumented'' (JInt 0) \<and>
            m_head (uninstrumented d)
              = dict_get (summary_source head) ''uninstrumented'' (JInt 0) \<and>
            m_base (score d) = dict_get (score_source base) ''score'' (JInt 0) \<and>
            m_head (score d) = dict_get (score_source head) ''score'' (JInt 0) \<and>
            p_base (grade d) = dict_get (score_source base) ''grade'' (JStr ''?'') \<and>
            p_head (grade d) = dict_get (score_source head) ''grade'' (JStr ''?'')"
    using 1 2 3 4 5 6
    by (simp add: compute_delta_def dict_shaped_summary [OF assms(1)]
        dict_shaped_summary [OF assms(2)] dict_shaped_score [OF assms(1)]
        dict_shaped_score [OF assms(2)])
  have sb: "\<not> has_sites base \<longrightarrow> sites_of base = Inr []"
    using dict_shaped_sites [OF assms(1)] by blast
  have sh: "\<not> has_sites head \<longrightarrow> sites_of head = Inr []"
    using dict_shaped_sites [OF assms(2)] by blast
  have f: "\<not> has_sites base \<and> \<not> has_sites head \<longrightarrow>
      find_new_uninstrumented rp base head = Inr []"
  proof
    assume "\<not> has_sites base \<and> \<not> has_sites head"
    with sb sh have "sites_of base = Inr (map JObj [])" "sites_of head = Inr (map JObj [])"
      by simp_all
    from find_new_char [OF this, of rp] show "find_new_uninstrumented rp base head = Inr []"
      by simp
  qed
  from d sb sh f show ?thesis by blast
qed

text \<open>
  A flat base without \<^verbatim>\<open>uninstrumented\<close> and without \<^verbatim>\<open>score\<close>, and a head whose
  \<^verbatim>\<open>scan\<close> has both a summary and a flat \<^verbatim>\<open>sites_total\<close>: the summary wins, and every
  absent field takes its default.
\<close>

theorem missing_fields_take_defaults_witness:
  "\<exists>d. compute_delta
          (JObj [(''scan'', JObj [(''sites_total'', JInt 10), (''instrumented'', JInt 5)])])
          (JObj [(''scan'', JObj [(''summary'', JObj [(''sites_total'', JInt 12)]),
                                  (''sites_total'', JInt 99)]),
                 (''score'', JObj [(''score'', JFloat (FFin False (35 / 2)))])]) = Inr d \<and>
       m_base (sites_total d) = JInt 10 \<and> m_head (sites_total d) = JInt 12 \<and>
       m_base (instrumented d) = JInt 5 \<and> m_head (instrumented d) = JInt 0 \<and>
       m_base (uninstrumented d) = JInt 0 \<and> m_head (uninstrumented d) = JInt 0 \<and>
       m_base (score d) = JInt 0 \<and> m_head (score d) = JFloat (FFin False (35 / 2)) \<and>
       p_base (grade d) = JStr ''?'' \<and> p_head (grade d) = JStr ''?'' \<and>
       find_new_uninstrumented (\<lambda>v. [])
          (JObj [(''scan'', JObj [(''sites_total'', JInt 10), (''instrumented'', JInt 5)])])
          (JObj [(''scan'', JObj [(''summary'', JObj [(''sites_total'', JInt 12)]),
                                  (''sites_total'', JInt 99)]),
                 (''score'', JObj [(''score'', JFloat (FFin False (35 / 2)))])]) = Inr []"
proof -
  let ?base = "JObj [(''scan'', JObj [(''sites_total'', JInt 10), (''instrumented'', JInt 5)])]"
  let ?head = "JObj [(''scan'', JObj [(''summary'', JObj [(''sites_total'', JInt 12)]),
                                  (''sites_total'', JInt 99)]),
                 (''score'', JObj [(''score'', JFloat (FFin False (35 / 2)))])]"
  have s: "dict_shaped ?base" "dict_shaped ?head"
    by (simp_all add: dict_shaped_def)
  have f: "fields_ok ?base" "fields_ok ?head"
    by (simp_all add: fields_ok_def present_ok_def summary_source_def score_source_def
        count_ok_def score_ok_def)
  have n: "\<not> has_sites ?base" "\<not> has_sites ?head"
    by (simp_all add: has_sites_def)
  from missing_fields_take_defaults [OF s f, of "\<lambda>v. []"] n
  show ?thesis
    by (simp add: summary_source_def score_source_def dict_get_def)
qed

section \<open>The command line\<close>

lemma py_round1_numeric: "py_round1 x = Inr y \<Longrightarrow> \<exists>neg. py_lt0 y = Inr neg"
  by (auto simp: py_round1_def py_lt0_def and_then_eq_Inr split: option.splits num.splits)

lemma score_delta_sign: "compute_delta base head = Inr d \<Longrightarrow> \<exists>neg. py_lt0 (m_delta (score d)) = Inr neg"
  using compute_delta_deltas(4) py_round1_numeric by blast

lemma main_missing: "base_file = Missing \<or> head_file = Missing \<Longrightarrow> main rp a base_file head_file = Exit 3 None"
  by (auto simp: main_def)

lemma main_decode_error:
  assumes "base_file \<noteq> Missing" "head_file \<noteq> Missing"
    and "base_file = Unreadable JSONDecodeError \<or>
         (\<exists>doc. base_file = Loaded doc) \<and> head_file = Unreadable JSONDecodeError"
  shows "main rp a base_file head_file = Exit 3 None"
  using assms by (auto simp: main_def)

lemma main_loaded:
  assumes "compute_delta base head = Inr d" "find_new_uninstrumented rp base head = Inr ns"
    "make_report rp a d ns = Inr rep" "py_lt0 (m_delta (score d)) = Inr neg"
  shows "main rp a (Loaded base) (Loaded head)
           = Exit (if fail_on_regression a \<and> neg then 1 else 0) (Some rep)"
  using assms by (simp add: main_def)

lemma main_Exit_1:
  assumes "main rp a base_file head_file = Exit 1 r"
  shows "fail_on_regression a \<and>
         (\<exists>base head d. base_file = Loaded base \<and> head_file = Loaded head \<and>
            compute_delta base head = Inr d \<and> py_lt0 (m_delta (score d)) = Inr True)"
proof -
  from assms have nm: "base_file \<noteq> Missing" "head_file \<noteq> Missing"
    by (auto simp: main_def split: if_splits)
  from assms nm obtain base head where l: "base_file = Loaded base" "head_file = Loaded head"
    by (cases base_file; cases head_file) (auto simp: main_def split: if_splits)
  from assms l show ?thesis
    by (auto simp: main_def and_then_eq_Inr split: sum.splits if_splits)
qed

text \<open>
  Claim C3, as the code has it. The status is 3 when an input path does not exist and when
  loading an input raises a JSON decoding error. When both inputs load and the delta, the
  new sites and the report are computed, the status is 1 if the fail-on-regression flag
  is set and the score delta is negative, and 0 otherwise; and a status of 1 is reached in
  no other way.
\<close>

theorem main_exit_status:
  "(base_file = Missing \<or> head_file = Missing \<longrightarrow>
      main rp a base_file head_file = Exit 3 None) \<and>
   (base_file \<noteq> Missing \<and> head_file \<noteq> Missing \<and>
    (base_file = Unreadable JSONDecodeError \<or>
     (\<exists>doc. base_file = Loaded doc) \<and> head_file = Unreadable JSONDecodeError) \<longrightarrow>
      main rp a base_file head_file = Exit 3 None) \<and>
   (\<forall>base head d ns rep.
      base_file = Loaded base \<and> head_file = Loaded head \<and>
      compute_delta base head = Inr d \<and> find_new_uninstrumented rp base head = Inr ns \<and>
      make_report rp a d ns = Inr rep \<longrightarrow>
      (\<exists>neg. py_lt0 (m_delta (score d)) = Inr neg \<and>
         main rp a base_file head_file
           = Exit (if fail_on_regression a \<and> neg then 1 else 0) (Some rep))) \<and>
   (\<forall>r. main rp a base_file head_file = Exit 1 r \<longrightarrow>
      fail_on_regression a \<and>
      (\<exists>base head d. base_file = Loaded base \<and> head_file = Loaded head \<and>
         compute_delta base head = Inr d \<and> py_lt0 (m_delta (score d)) = Inr True))"
proof (intro conjI impI allI)
  assume "base_file = Missing \<or> head_file = Missing"
  then show "main rp a base_file head_file = Exit 3 None" by (rule main_missing)
next
  assume "base_file \<noteq> Missing \<and> head_file \<noteq> Missing \<and>
    (base_file = Unreadable JSONDecodeError \<or>
     (\<exists>doc. base_file = Loaded doc) \<and> head_file = Unreadable JSONDecodeError)"
  then show "main rp a base_file head_file = Exit 3 None"
    using main_decode_error by blast
next
  fix base head d ns rep
  assume h: "base_file = Loaded base \<and> head_file = Loaded head \<and>
      compute_delta base head = Inr d \<and> find_new_uninstrumented rp base head = Inr ns \<and>
      make_report rp a d ns = Inr rep"
  then obtain neg where "py_lt0 (m_delta (score d)) = Inr neg"
    using score_delta_sign by blast
  with h show "\<exists>neg. py_lt0 (m_delta (score d)) = Inr neg \<and>
         main rp a base_file head_file
           = Exit (if fail_on_regression a \<and> neg then 1 else 0) (Some rep)"
    using main_loaded by blast
next
  fix r assume "main rp a base_file head_file = Exit 1 r"
  from main_Exit_1 [OF this]
  show "fail_on_regression a" and "\<exists>base head d. base_file = Loaded base \<and> head_file = Loaded head \<and>
         compute_delta base head = Inr d \<and> py_lt0 (m_delta (score d)) = Inr True"
    by blast+
qed

text \<open>
  A score going from 25.0 to 10.0 ends with status 1 under the flag and with 0 without
  it; a missing base and an undecodable head end with 3.
\<close>

theorem main_exit_status_witness:
  "(\<exists>rep. main (\<lambda>v. []) \<lparr> json_output = True, fail_on_regression = True \<rparr>
      (Loaded (JObj [(''score'', JObj [(''score'', JFloat (FFin False 25)), (''grade'', JStr ''F'')])]))
      (Loaded (JObj [(''score'', JObj [(''score'', JFloat (FFin False 10)), (''grade'', JStr ''F'')])]))
     = Exit 1 (Some rep)) \<and>
   (\<exists>rep. main (\<lambda>v. []) \<lparr> json_output = True, fail_on_regression = False \<rparr>
      (Loaded (JObj [(''score'', JObj [(''score'', JFloat (FFin False 25)), (''grade'', JStr ''F'')])]))
      (Loaded (JObj [(''score'', JObj [(''score'', JFloat (FFin False 10)), (''grade'', JStr ''F'')])]))
     = Exit 0 (Some rep)) \<and>
   main (\<lambda>v. []) \<lparr> json_output = True, fail_on_regression = True \<rparr> Missing (Loaded (JObj []))
     = Exit 3 None \<and>
   main (\<lambda>v. []) \<lparr> json_output = True, fail_on_regression = True \<rparr>
      (Loaded (JObj [])) (Unreadable JSONDecodeError) = Exit 3 None"
proof -
  let ?base = "JObj [(''score'', JObj [(''score'', JFloat (FFin False 25)), (''grade'', JStr ''F'')])]"
  let ?head = "JObj [(''score'', JObj [(''score'', JFloat (FFin False 10)), (''grade'', JStr ''F'')])]"
  let ?a = "\<lambda>f. \<lparr> json_output = True, fail_on_regression = f \<rparr>"
  obtain d where d: "compute_delta ?base ?head = Inr d"
    and s: "m_delta (score d) = JFloat (FFin True 15)"
    and j: "json_dumps d [] True = Inr (Structured d [] True)"
    by (simp add: delta_eval json_dumps_def metric_ok_def pair_ok_def int_fits_small)
  have n: "find_new_uninstrumented (\<lambda>v. []) ?base ?head = Inr []"
    by (simp add: find_eval)
  have r: "make_report (\<lambda>v. []) (?a f) d [] = Inr (Structured d [] True)" for f
    by (simp add: make_report_def py_lt0_def s j)
  have l: "py_lt0 (m_delta (score d)) = Inr True"
    by (simp add: py_lt0_def s)
  from main_exit_status [of "Loaded ?base" "Loaded ?head" "\<lambda>v. []" "?a True"] d n r l
  have 1: "main (\<lambda>v. []) (?a True) (Loaded ?base) (Loaded ?head)
             = Exit 1 (Some (Structured d [] True))"
    by auto
  from main_exit_status [of "Loaded ?base" "Loaded ?head" "\<lambda>v. []" "?a False"] d n r l
  have 2: "main (\<lambda>v. []) (?a False) (Loaded ?base) (Loaded ?head)
             = Exit 0 (Some (Structured d [] True))"
    by auto
  from main_exit_status [of Missing "Loaded (JObj [])" "\<lambda>v. []" "?a True"]
  have 3: "main (\<lambda>v. []) (?a True) Missing (Loaded (JObj [])) = Exit 3 None"
    by simp
  from main_exit_status [of "Loaded (JObj [])" "Unreadable JSONDecodeError" "\<lambda>v. []" "?a True"]
  have 4: "main (\<lambda>v. []) (?a True) (Loaded (JObj [])) (Unreadable JSONDecodeError) = Exit 3 None"
    by simp
  from 1 2 3 4 show ?thesis by blast
qed

text \<open>
  An input that parses to a list, or to a string, is loaded without an error; the
  AttributeError of the first \<^verbatim>\<open>get\<close> is not caught, so the status is not 3.
\<close>

theorem main_non_mapping_counterexample:
  "main (\<lambda>v. []) \<lparr> json_output = False, fail_on_regression = False \<rparr>
      (Loaded (JArr [])) (Loaded (JObj [])) = Raised AttributeError \<and>
   main (\<lambda>v. []) \<lparr> json_output = True, fail_on_regression = True \<rparr>
      (Loaded (JObj [])) (Loaded (JStr ''not a mapping'')) = Raised AttributeError"
  by (simp add: main_def delta_eval)

lemma json_dumps_cases:
  "json_dumps d ns neg = Inr (Structured d ns neg) \<or> json_dumps d ns neg = Inl ValueError"
  by (simp add: json_dumps_def)

text \<open>
  Claim C9. In JSON mode the \<^verbatim>\<open>regressed\<close> flag of the output and the exit decision are
  both the sign test of the rounded score delta \<^verbatim>\<open>round(head - base, 1)\<close>. The output
  is the delta, the new sites and that flag; when it is serialised the process ends with
  status 1 if the flag is set together with fail-on-regression and with 0 otherwise, and
  when an integer in it is beyond the digit limit the ValueError of \<^verbatim>\<open>json.dumps\<close> ends
  the process.
\<close>

theorem regression_uses_rounded_delta:
  assumes "compute_delta base head = Inr d"
    and "find_new_uninstrumented rp base head = Inr ns"
    and "json_output a"
  shows "\<exists>raw neg.
           py_sub (m_head (score d)) (m_base (score d)) = Inr raw \<and>
           py_round1 raw = Inr (m_delta (score d)) \<and>
           py_lt0 (m_delta (score d)) = Inr neg \<and>
           make_report rp a d ns = json_dumps d ns neg \<and>
           (json_dumps d ns neg = Inr (Structured d ns neg) \<or>
            json_dumps d ns neg = Inl ValueError) \<and>
           main rp a (Loaded base) (Loaded head)
             = (case json_dumps d ns neg of
                  Inl e \<Rightarrow> Raised e
                | Inr rep \<Rightarrow> Exit (if fail_on_regression a \<and> neg then 1 else 0) (Some rep))"
proof -
  from compute_delta_deltas(4) [OF assms(1)] obtain raw where
    raw: "py_sub (m_head (score d)) (m_base (score d)) = Inr raw"
      "py_round1 raw = Inr (m_delta (score d))"
    by blast
  from score_delta_sign [OF assms(1)] obtain neg where
    neg: "py_lt0 (m_delta (score d)) = Inr neg" by blast
  have rep: "make_report rp a d ns = json_dumps d ns neg"
    using assms(3) neg by (simp add: make_report_def)
  have "main rp a (Loaded base) (Loaded head)
      = (case json_dumps d ns neg of
           Inl e \<Rightarrow> Raised e
         | Inr rep \<Rightarrow> Exit (if fail_on_regression a \<and> neg then 1 else 0) (Some rep))"
    using assms(1,2) rep neg by (cases "json_dumps d ns neg") (simp_all add: main_def)
  with raw neg rep json_dumps_cases [of d ns neg] show ?thesis by blast
qed

text \<open>
  Base score 0.04 (the float nearest to \<open>1 / 25\<close>) and head score 0.0: the difference is negative, its rounding is
  \<^verbatim>\<open>-0.0\<close>, which is not less than 0: no regression is reported and the status is 0 with
  the flag set.
\<close>

theorem regression_uses_rounded_delta_witness:
  "fl_round False (1 / 25) = FFin False (5764607523034235 / 144115188075855872) \<and>
   (\<exists>d. compute_delta
              (JObj [(''score'', JObj [(''score'',
                 JFloat (FFin False (5764607523034235 / 144115188075855872)))])])
              (JObj [(''score'', JObj [(''score'', JFloat (FFin False 0))])]) = Inr d \<and>
           py_sub (m_head (score d)) (m_base (score d))
             = Inr (JFloat (FFin True (5764607523034235 / 144115188075855872))) \<and>
           py_lt0 (JFloat (FFin True (5764607523034235 / 144115188075855872))) = Inr True \<and>
           m_delta (score d) = JFloat (FFin True 0) \<and>
           py_lt0 (m_delta (score d)) = Inr False \<and>
           main (\<lambda>v. []) \<lparr> json_output = True, fail_on_regression = True \<rparr>
              (Loaded (JObj [(''score'', JObj [(''score'',
                 JFloat (FFin False (5764607523034235 / 144115188075855872)))])]))
              (Loaded (JObj [(''score'', JObj [(''score'', JFloat (FFin False 0))])]))
             = Exit 0 (Some (Structured d [] False)))"
proof -
  have lit: "fl_round False (1 / 25) = FFin False (5764607523034235 / 144115188075855872)"
    by (simp add: fl_eval)
  let ?base = "JObj [(''score'', JObj [(''score'',
             JFloat (FFin False (5764607523034235 / 144115188075855872)))])]"
  let ?head = "JObj [(''score'', JObj [(''score'', JFloat (FFin False 0))])]"
  let ?a = "\<lparr> json_output = True, fail_on_regression = True \<rparr>"
  obtain d where d: "compute_delta ?base ?head = Inr d"
    and f: "m_base (score d) = JFloat (FFin False (5764607523034235 / 144115188075855872))"
      "m_head (score d) = JFloat (FFin False 0)"
      "m_delta (score d) = JFloat (FFin True 0)"
    and j: "json_dumps d [] False = Inr (Structured d [] False)"
    by (simp add: delta_eval json_dumps_def metric_ok_def pair_ok_def int_fits_small)
  have n: "find_new_uninstrumented (\<lambda>v. []) ?base ?head = Inr []"
    by (simp add: find_eval)
  have s: "py_sub (m_head (score d)) (m_base (score d))
         = Inr (JFloat (FFin True (5764607523034235 / 144115188075855872)))"
    by (simp add: f py_sub_def fl_eval)
  have l: "py_lt0 (JFloat (FFin True (5764607523034235 / 144115188075855872))) = Inr True"
    "py_lt0 (m_delta (score d)) = Inr False"
    by (simp_all add: f py_lt0_def)
  from regression_uses_rounded_delta [OF d n, of ?a] l(2) j
  have "main (\<lambda>v. []) ?a (Loaded ?base) (Loaded ?head) = Exit 0 (Some (Structured d [] False))"
    by auto
  with d s l f(3) lit show ?thesis by blast
qed

section \<open>The markdown report\<close>

lemma sublist_split:
  assumes "c \<notin> set w"
  shows "sublist w (xs @ c # ys) \<longleftrightarrow> sublist w xs \<or> sublist w ys"
proof
  assume "sublist w (xs @ c # ys)"
  then consider "sublist w xs" | "sublist w (c # ys)"
    | w1 w2 where "w = w1 @ w2" "suffix w1 xs" "prefix w2 (c # ys)"
    by (auto simp: sublist_append)
  then show "sublist w xs \<or> sublist w ys"
  proof cases
    case 1
    then show ?thesis by simp
  next
    case 2
    then have "prefix w (c # ys) \<or> sublist w ys" by (simp add: sublist_Cons_right)
    with assms show ?thesis by (cases w) (auto simp: prefix_Cons)
  next
    case 3
    with assms show ?thesis by (cases w2) (auto simp: prefix_Cons)
  qed
next
  assume "sublist w xs \<or> sublist w ys"
  then show "sublist w (xs @ c # ys)"
    by (auto simp: sublist_append sublist_Cons_right)
qed

lemma sublist_skip:
  assumes "c \<notin> set w" and "w \<noteq> []"
  shows "sublist w (c # ys) \<longleftrightarrow> sublist w ys"
  using sublist_split [OF assms(1), of "[]" ys] assms(2) by simp

lemma sublist_join_lines:
  assumes "CHR 0x0A \<notin> set w" and "w \<noteq> []"
  shows "sublist w (join_lines ls) \<longleftrightarrow> list_ex (sublist w) ls"
proof (induction ls rule: join_lines.induct)
  case 1
  with assms show ?case by simp
next
  case (2 l)
  then show ?case by simp
next
  case (3 l l' ls)
  then show ?case by (simp add: sublist_split [OF assms(1)])
qed

lemma digits_number_chars: "set ''0123456789'' \<subseteq> number_chars"
  by (simp add: number_chars_def)

lemma dec_number_chars: "set (dec n) \<subseteq> number_chars"
  using dec_digits [of n] digits_number_chars by (rule subset_trans)

lemma sign_str_chars: "set (sign_str sg neg) \<subseteq> number_chars"
  by (cases neg; cases sg) (simp_all add: sign_str_def number_chars_def)

lemma literal_number_chars:
  "set ''.'' \<subseteq> number_chars" "set ''inf'' \<subseteq> number_chars" "set ''nan'' \<subseteq> number_chars"
  by (simp_all add: number_chars_def)

lemma fmt_float1_chars: "set (fmt_float1 sg f) \<subseteq> number_chars"
proof (cases f)
  case (FFin s a)
  have "set (sign_str sg s @ dec m @ ''.'' @ dec k) \<subseteq> number_chars" for m k
    unfolding set_append
    using sign_str_chars [of sg s] dec_number_chars [of m] dec_number_chars [of k]
      literal_number_chars(1)
    by blast
  with FFin show ?thesis by (simp only: fmt_float1.simps Let_def)
next
  case (FInf s)
  have "set (sign_str sg s @ ''inf'') \<subseteq> number_chars"
    unfolding set_append using sign_str_chars [of sg s] literal_number_chars(2) by blast
  with FInf show ?thesis by (simp only: fmt_float1.simps)
next
  case FNaN
  have "set (sign_str sg False @ ''nan'') \<subseteq> number_chars"
    unfolding set_append using sign_str_chars [of sg False] literal_number_chars(3) by blast
  with FNaN show ?thesis by (simp only: fmt_float1.simps)
qed

lemma fmt_f1_chars:
  assumes "fmt_f1 sg x = Inr s"
  shows "set s \<subseteq> number_chars"
proof (cases "as_num x")
  case None
  with assms show ?thesis by (cases x) (simp_all add: fmt_f1_def)
next
  case (Some n)
  with assms obtain f where "s = fmt_float1 sg f"
    by (auto simp: fmt_f1_def and_then_eq_Inr)
  then show ?thesis by (simp only: fmt_float1_chars)
qed

lemma fmt_plus_d_chars:
  assumes "fmt_plus_d x = Inr s"
  shows "set s \<subseteq> number_chars"
proof (cases "as_num x")
  case None
  with assms show ?thesis by (cases x) (simp_all add: fmt_plus_d_def)
next
  case (Some n)
  show ?thesis
  proof (cases n)
    case (NInt k)
    with Some assms have "s = sign_str True (k < 0) @ dec (nat \<bar>k\<bar>)"
      by (simp add: fmt_plus_d_def split: if_splits)
    then show ?thesis
      using sign_str_chars [of True "k < 0"] dec_number_chars [of "nat \<bar>k\<bar>"]
      by (simp only: set_append) blast
  next
    case (NFloat f)
    with Some assms show ?thesis by (simp add: fmt_plus_d_def)
  qed
qed

lemma number_no_word:
  assumes "set s \<subseteq> number_chars"
  shows "\<not> sublist ''improved'' s" and "\<not> sublist ''regressed'' s"
proof -
  have "CHR ''m'' \<notin> number_chars" "CHR ''r'' \<notin> number_chars"
    by (simp_all add: number_chars_def)
  with assms have m: "CHR ''m'' \<notin> set s" and r: "CHR ''r'' \<notin> set s" by auto
  have "CHR ''m'' \<in> set ''improved''" "CHR ''r'' \<in> set ''regressed''" by simp_all
  with m r show "\<not> sublist ''improved'' s" and "\<not> sublist ''regressed'' s"
    using set_mono_sublist [of "''improved''" s] set_mono_sublist [of "''regressed''" s]
    by blast+
qed

lemma fixed_lines_no_word:
  assumes "w = ''improved'' \<or> w = ''regressed''"
  shows "\<not> sublist w ''## Evidence Readiness Score Delta''"
    and "\<not> sublist w ''| Metric | Base | Head | Delta |''"
    and "\<not> sublist w ''|--------|------|------|-------|''"
    and "\<not> sublist w ''### New Uninstrumented Call Sites''"
    and "\<not> sublist w ''| File | Line | Call | Provider |''"
    and "\<not> sublist w ''|------|------|------|----------|''"
    and "\<not> sublist w
      ''> Fix: `pip install assay-ai && assay patch .` to auto-instrument these sites.''"
    and "\<not> list_ex (sublist w) footer"
  using assms by (auto simp: footer_def sublist_Cons_right)

lemma score_row_word:
  assumes "w = ''improved'' \<or> w = ''regressed''"
    and "\<not> sublist w sb" "\<not> sublist w sh" "\<not> sublist w sd"
    and "icon = '' [improved]'' \<or> icon = '' [regressed]'' \<or> icon = []"
  shows "sublist w (''| **Score** | '' @ sb @ '' | '' @ sh @ '' | '' @ sd @ icon @ '' |'')
           \<longleftrightarrow> w = ''improved'' \<and> icon = '' [improved]'' \<or>
               w = ''regressed'' \<and> icon = '' [regressed]''"
  using assms by (elim disjE) (simp_all add: sublist_split sublist_Cons_right)

lemma py_str_Inr: "py_str rp x = Inr t \<Longrightarrow> t = str_text rp x"
  by (simp add: py_str_def split: if_splits)

lemma grade_change_text:
  assumes "grade_change rp g = Inr change"
  shows "str_text rp change = str_text rp (p_head g) \<or>
         str_text rp change = str_text rp (p_base g) @ '' -> '' @ str_text rp (p_head g)"
proof (cases "py_ne (p_base g) (p_head g)")
  case True
  with assms obtain b h where "py_str rp (p_base g) = Inr b" "py_str rp (p_head g) = Inr h"
    "change = JStr (b @ '' -> '' @ h)"
    by (auto simp: grade_change_def and_then_eq_Inr)
  then show ?thesis using py_str_Inr by fastforce
next
  case False
  with assms show ?thesis by (simp add: grade_change_def)
qed

lemma grade_row_word:
  assumes "w = ''improved'' \<or> w = ''regressed''"
    and "grade_row rp g = Inr r"
  shows "sublist w r \<longleftrightarrow>
           sublist w (str_text rp (p_base g)) \<or> sublist w (str_text rp (p_head g))"
proof -
  from assms(2) obtain change b h c where
    ch: "grade_change rp g = Inr change"
    and b: "py_str rp (p_base g) = Inr b" and h: "py_str rp (p_head g) = Inr h"
    and c: "py_str rp change = Inr c"
    and r: "r = ''| **Grade** | '' @ b @ '' | '' @ h @ '' | '' @ c @ '' |''"
    by (auto simp: grade_row_def and_then_eq_Inr)
  from py_str_Inr [OF b] py_str_Inr [OF h] py_str_Inr [OF c]
  have t: "b = str_text rp (p_base g)" "h = str_text rp (p_head g)" "c = str_text rp change"
    by simp_all
  from grade_change_text [OF ch] t have "c = h \<or> c = b @ '' -> '' @ h" by simp
  then have "sublist w c \<longrightarrow> sublist w b \<or> sublist w h"
    using assms(1) by (elim disjE) (auto simp: sublist_split sublist_Cons_right)
  moreover have "sublist w r \<longleftrightarrow> sublist w b \<or> sublist w h \<or> sublist w c"
    using assms(1) unfolding r
    by (elim disjE) (auto simp: sublist_split sublist_Cons_right)
  ultimately have "sublist w r \<longleftrightarrow> sublist w b \<or> sublist w h" by blast
  with t show ?thesis by simp
qed

lemma count_row_word:
  assumes "w = ''improved'' \<or> w = ''regressed''"
    and "count_row rp label m = Inr r" and "\<not> sublist w label"
  shows "sublist w r \<longleftrightarrow>
           sublist w (str_text rp (m_base m)) \<or> sublist w (str_text rp (m_head m))"
proof -
  from assms(2) obtain b h d where
    b: "py_str rp (m_base m) = Inr b" and h: "py_str rp (m_head m) = Inr h"
    and d: "fmt_plus_d (m_delta m) = Inr d"
    and r: "r = ''| '' @ label @ '' | '' @ b @ '' | '' @ h @ '' | '' @ d @ '' |''"
    by (auto simp: count_row_def and_then_eq_Inr)
  from fmt_plus_d_chars [OF d] have "\<not> sublist w d"
    using assms(1) number_no_word by blast
  with assms(1,3) have "sublist w r \<longleftrightarrow> sublist w b \<or> sublist w h"
    unfolding r by (elim disjE) (simp_all add: sublist_split sublist_Cons_right)
  with py_str_Inr [OF b] py_str_Inr [OF h] show ?thesis by simp
qed

lemma coverage_row_word:
  assumes "w = ''improved'' \<or> w = ''regressed''"
    and "\<not> sublist w cb" "\<not> sublist w ch" "\<not> sublist w cd"
  shows "\<not> sublist w (''| Coverage | '' @ cb @ ''% | '' @ ch @ ''% | '' @ cd @ ''% |'')"
  using assms by (elim disjE) (simp_all add: sublist_split sublist_Cons_right)

lemma site_row_word:
  assumes "w = ''improved'' \<or> w = ''regressed''"
    and "site_row rp site = Inr r"
  shows "sublist w r \<longleftrightarrow>
           list_ex (sublist w) [str_text rp (s_file site), s_line site,
             str_text rp (s_call site), str_text rp (s_provider site)]"
proof -
  from assms(2) obtain f c p where
    f: "py_str rp (s_file site) = Inr f" and c: "py_str rp (s_call site) = Inr c"
    and p: "py_str rp (s_provider site) = Inr p"
    and r: "r = ''| `'' @ f @ ''` | '' @ s_line site @ '' | `'' @ c @ ''` | '' @ p @ '' |''"
    by (auto simp: site_row_def and_then_eq_Inr)
  have "sublist w r \<longleftrightarrow> list_ex (sublist w) [f, s_line site, c, p]"
    using assms(1) unfolding r
    by (elim disjE) (auto simp: sublist_split sublist_Cons_right)
  with py_str_Inr [OF f] py_str_Inr [OF c] py_str_Inr [OF p] show ?thesis by simp
qed

lemma site_rows_word:
  assumes "w = ''improved'' \<or> w = ''regressed''"
  shows "site_rows rp sites = Inr rows \<Longrightarrow>
         list_ex (sublist w) rows \<longleftrightarrow>
           list_ex (sublist w) (concat (map (\<lambda>site. [str_text rp (s_file site), s_line site,
             str_text rp (s_call site), str_text rp (s_provider site)]) sites))"
proof (induction sites arbitrary: rows)
  case Nil
  then show ?case by simp
next
  case (Cons site rest)
  from Cons.prems obtain row rows' where
    row: "site_row rp site = Inr row" and rest: "site_rows rp rest = Inr rows'"
    and rows: "rows = row # rows'"
    by (auto simp: and_then_eq_Inr)
  from site_row_word [OF assms row] Cons.IH [OF rest] show ?case
    unfolding rows by simp
qed

lemma sites_section_word:
  assumes "w = ''improved'' \<or> w = ''regressed''"
    and "new_sites_section rp new_sites = Inr sect"
  shows "list_ex (sublist w) sect \<longleftrightarrow>
           list_ex (sublist w) (concat (map (\<lambda>site. [str_text rp (s_file site), s_line site,
             str_text rp (s_call site), str_text rp (s_provider site)]) new_sites))"
proof (cases "new_sites = []")
  case True
  with assms(2) show ?thesis by (simp add: new_sites_section_def)
next
  case False
  with assms(2) obtain rows where rows: "site_rows rp new_sites = Inr rows"
    and sec: "sect = [[], ''### New Uninstrumented Call Sites'', [],
              ''| File | Line | Call | Provider |'',
              ''|------|------|------|----------|''] @
             rows @
             [[],
              ''> Fix: `pip install assay-ai && assay patch .` to auto-instrument these sites.'']"
    by (auto simp: new_sites_section_def and_then_eq_Inr)
  from assms(1) have "w \<noteq> []" by auto
  with site_rows_word [OF assms(1) rows] show ?thesis
    unfolding sec using fixed_lines_no_word(4-7) [OF assms(1)]
    by simp
qed

lemma score_icon_cases:
  assumes "score_icon x = Inr icon"
  shows "py_gt0 x = Inr True \<and> icon = '' [improved]'' \<or>
         py_gt0 x = Inr False \<and> py_lt0 x = Inr True \<and> icon = '' [regressed]'' \<or>
         py_gt0 x = Inr False \<and> py_lt0 x = Inr False \<and> icon = []"
  using assms by (auto simp: score_icon_def and_then_eq_Inr split: if_splits)

lemma gt0_not_lt0: "py_gt0 x = Inr True \<Longrightarrow> py_lt0 x = Inr False"
proof (cases "as_num x")
  case None
  then show "py_gt0 x = Inr True \<Longrightarrow> py_lt0 x = Inr False" by (simp add: py_gt0_def)
next
  case (Some n)
  assume g: "py_gt0 x = Inr True"
  show "py_lt0 x = Inr False"
  proof (cases n)
    case (NInt k)
    with Some g show ?thesis by (simp add: py_gt0_def py_lt0_def)
  next
    case (NFloat f)
    with Some g show ?thesis by (cases f) (auto simp: py_gt0_def py_lt0_def)
  qed
qed

lemma render_markdown_word:
  assumes "render_markdown rp delta new_sites = Inr t"
    and w: "w = ''improved'' \<or> w = ''regressed''"
  shows "\<exists>icon. score_icon (m_delta (score delta)) = Inr icon \<and>
           (sublist w t \<longleftrightarrow>
              w = ''improved'' \<and> icon = '' [improved]'' \<or>
              w = ''regressed'' \<and> icon = '' [regressed]'' \<or>
              mentions w rp delta new_sites)"
proof -
  from assms(1) obtain icon sb sh sd row_grade row_sites row_instr row_uninstr cov_delta
      cb ch cd sect where
    icon: "score_icon (m_delta (score delta)) = Inr icon"
    and sb: "fmt_f1 False (m_base (score delta)) = Inr sb"
    and sh: "fmt_f1 False (m_head (score delta)) = Inr sh"
    and sd: "fmt_f1 True (m_delta (score delta)) = Inr sd"
    and rg: "grade_row rp (grade delta) = Inr row_grade"
    and r1: "count_row rp ''Call Sites'' (sites_total delta) = Inr row_sites"
    and r2: "count_row rp ''Instrumented'' (instrumented delta) = Inr row_instr"
    and r3: "count_row rp ''Uninstrumented'' (uninstrumented delta) = Inr row_uninstr"
    and cb: "fmt_f1 False (p_base (coverage_pct delta)) = Inr cb"
    and ch: "fmt_f1 False (p_head (coverage_pct delta)) = Inr ch"
    and cd: "fmt_f1 True cov_delta = Inr cd"
    and sec: "new_sites_section rp new_sites = Inr sect"
    and t: "t = join_lines
       ([''## Evidence Readiness Score Delta'', [],
         ''| Metric | Base | Head | Delta |'',
         ''|--------|------|------|-------|'',
         ''| **Score** | '' @ sb @ '' | '' @ sh @ '' | '' @ sd @ icon @ '' |'',
         row_grade, row_sites, row_instr, row_uninstr,
         ''| Coverage | '' @ cb @ ''% | '' @ ch @ ''% | '' @ cd @ ''% |''] @
        sect @ footer)"
    unfolding render_markdown_def and_then_eq_Inr by blast
  from w have nw: "w \<noteq> []" "CHR 0x0A \<notin> set w" by auto
  have num: "\<not> sublist w sb" "\<not> sublist w sh" "\<not> sublist w sd"
      "\<not> sublist w cb" "\<not> sublist w ch" "\<not> sublist w cd"
    using w number_no_word fmt_f1_chars sb sh sd cb ch cd by blast+
  have ic: "icon = '' [improved]'' \<or> icon = '' [regressed]'' \<or> icon = []"
    using score_icon_cases [OF icon] by blast
  have lbl: "\<not> sublist w ''Call Sites''" "\<not> sublist w ''Instrumented''"
      "\<not> sublist w ''Uninstrumented''"
    using w by (auto simp: sublist_Cons_right)
  note rows = grade_row_word [OF w rg] count_row_word [OF w r1 lbl(1)]
    count_row_word [OF w r2 lbl(2)] count_row_word [OF w r3 lbl(3)]
  have "sublist w t \<longleftrightarrow>
      w = ''improved'' \<and> icon = '' [improved]'' \<or>
      w = ''regressed'' \<and> icon = '' [regressed]'' \<or>
      mentions w rp delta new_sites"
    unfolding t sublist_join_lines [OF nw(2,1)] list_ex_append list_ex_Cons_iff list_ex_Nil_iff
      score_row_word [OF w num(1-3) ic] rows
      sites_section_word [OF w sec] mentions_def copied_texts_def
    using fixed_lines_no_word(1-3,8) [OF w] coverage_row_word [OF w num(4-6)] nw(1)
    by auto
  with icon show ?thesis by blast
qed

lemmas render_eval = render_markdown_def score_icon_def fmt_f1_def fmt_plus_d_def count_row_def
  grade_change_def grade_row_def new_sites_section_def site_row_def footer_def py_ne_def
  py_sub_def py_gt0_def py_lt0_def fl_eval text_eval

text \<open>
  Claim C7, as the code has it. The report contains \<^verbatim>\<open>improved\<close> exactly when the score
  delta is greater than 0 or the word occurs in one of the texts copied from the input
  (the grades, the counts, the fields of the new sites), and \<^verbatim>\<open>regressed\<close> exactly when
  the score delta is less than 0 or that word occurs in a copied text. So with copied
  texts free of both words the label alone decides, and a delta of 0 gives neither.
\<close>

theorem render_markdown_labels:
  assumes "render_markdown rp delta new_sites = Inr t"
  shows "(sublist ''improved'' t \<longleftrightarrow>
            py_gt0 (m_delta (score delta)) = Inr True \<or> mentions ''improved'' rp delta new_sites) \<and>
         (sublist ''regressed'' t \<longleftrightarrow>
            py_lt0 (m_delta (score delta)) = Inr True \<or> mentions ''regressed'' rp delta new_sites) \<and>
         (\<exists>up down. py_gt0 (m_delta (score delta)) = Inr up \<and>
            py_lt0 (m_delta (score delta)) = Inr down \<and> (up \<and> down) = False)"
proof -
  from render_markdown_word [OF assms, of "''improved''"] obtain icon where
    icon: "score_icon (m_delta (score delta)) = Inr icon"
    and i: "sublist ''improved'' t \<longleftrightarrow>
      icon = '' [improved]'' \<or> mentions ''improved'' rp delta new_sites"
    by auto
  from render_markdown_word [OF assms, of "''regressed''"] icon have
    r: "sublist ''regressed'' t \<longleftrightarrow>
      icon = '' [regressed]'' \<or> mentions ''regressed'' rp delta new_sites"
    by auto
  note c = score_icon_cases [OF icon]
  have gi: "icon = '' [improved]'' \<longleftrightarrow> py_gt0 (m_delta (score delta)) = Inr True"
    using c by auto
  have gr: "icon = '' [regressed]'' \<longleftrightarrow> py_lt0 (m_delta (score delta)) = Inr True"
    using c gt0_not_lt0 [of "m_delta (score delta)"] by auto
  have s: "\<exists>up down. py_gt0 (m_delta (score delta)) = Inr up \<and>
            py_lt0 (m_delta (score delta)) = Inr down \<and> (up \<and> down) = False"
    using c gt0_not_lt0 [of "m_delta (score delta)"] by auto
  from i r gi gr s show ?thesis by simp
qed

text \<open>A score going from 25.0 to 10.0 with grades D and F and no new sites.\<close>

theorem render_markdown_labels_witness:
  "let delta =
         \<lparr> sites_total = \<lparr> m_base = JInt 10, m_head = JInt 15, m_delta = JInt 5 \<rparr>,
           instrumented = \<lparr> m_base = JInt 5, m_head = JInt 10, m_delta = JInt 5 \<rparr>,
           uninstrumented = \<lparr> m_base = JInt 5, m_head = JInt 5, m_delta = JInt 0 \<rparr>,
           score = \<lparr> m_base = JFloat (FFin False 25), m_head = JFloat (FFin False 10),
                     m_delta = JFloat (FFin True 15) \<rparr>,
           grade = \<lparr> p_base = JStr ''D'', p_head = JStr ''F'' \<rparr>,
           coverage_pct = \<lparr> p_base = JFloat (FFin False 50),
                            p_head = JFloat (FFin False (4693595236650189 / 70368744177664)) \<rparr> \<rparr>
   in \<exists>t. render_markdown (\<lambda>v. []) delta [] = Inr t \<and>
        sublist ''regressed'' t \<and> \<not> sublist ''improved'' t"
proof -
  let ?d = "\<lparr> sites_total = \<lparr> m_base = JInt 10, m_head = JInt 15, m_delta = JInt 5 \<rparr>,
           instrumented = \<lparr> m_base = JInt 5, m_head = JInt 10, m_delta = JInt 5 \<rparr>,
           uninstrumented = \<lparr> m_base = JInt 5, m_head = JInt 5, m_delta = JInt 0 \<rparr>,
           score = \<lparr> m_base = JFloat (FFin False 25), m_head = JFloat (FFin False 10),
                     m_delta = JFloat (FFin True 15) \<rparr>,
           grade = \<lparr> p_base = JStr ''D'', p_head = JStr ''F'' \<rparr>,
           coverage_pct = \<lparr> p_base = JFloat (FFin False 50),
                            p_head = JFloat (FFin False (4693595236650189 / 70368744177664)) \<rparr> \<rparr>"
  obtain t where t: "render_markdown (\<lambda>v. []) ?d [] = Inr t"
    by (simp add: render_eval)
  have m: "\<not> mentions ''improved'' (\<lambda>v. []) ?d []" "\<not> mentions ''regressed'' (\<lambda>v. []) ?d []"
    by (simp_all add: mentions_def copied_texts_def text_eval sublist_Cons_right)
  have s: "py_gt0 (m_delta (score ?d)) = Inr False" "py_lt0 (m_delta (score ?d)) = Inr True"
    by (simp_all add: py_gt0_def py_lt0_def)
  from render_markdown_labels [OF t] m s
  have "sublist ''regressed'' t \<and> \<not> sublist ''improved'' t" by simp
  with t show ?thesis unfolding Let_def by blast
qed

text \<open>
  A score delta of 0 and one new site in the file \<^verbatim>\<open>improved.py\<close>: the report, given here
  line by line, contains the word.
\<close>

theorem render_markdown_labels_counterexample:
  "let delta =
         \<lparr> sites_total = \<lparr> m_base = JInt 4, m_head = JInt 4, m_delta = JInt 0 \<rparr>,
           instrumented = \<lparr> m_base = JInt 2, m_head = JInt 1, m_delta = JInt (- 1) \<rparr>,
           uninstrumented = \<lparr> m_base = JInt 2, m_head = JInt 3, m_delta = JInt 1 \<rparr>,
           score = \<lparr> m_base = JFloat (FFin False 20), m_head = JFloat (FFin False 20),
                     m_delta = JFloat (FFin False 0) \<rparr>,
           grade = \<lparr> p_base = JStr ''F'', p_head = JStr ''F'' \<rparr>,
           coverage_pct = \<lparr> p_base = JFloat (FFin False 50),
                            p_head = JFloat (FFin False 25) \<rparr> \<rparr>;
       new_sites =
         [\<lparr> s_file = JStr ''improved.py'', s_line = ''7'', s_call = JStr ''create'',
            s_provider = JStr ''openai'' \<rparr>];
       t = join_lines
         [''## Evidence Readiness Score Delta'',
          [],
          ''| Metric | Base | Head | Delta |'',
          ''|--------|------|------|-------|'',
          ''| **Score** | 20.0 | 20.0 | +0.0 |'',
          ''| **Grade** | F | F | F |'',
          ''| Call Sites | 4 | 4 | +0 |'',
          ''| Instrumented | 2 | 1 | -1 |'',
          ''| Uninstrumented | 2 | 3 | +1 |'',
          ''| Coverage | 50.0% | 25.0% | -25.0% |'',
          [],
          ''### New Uninstrumented Call Sites'',
          [],
          ''| File | Line | Call | Provider |'',
          ''|------|------|------|----------|'',
          ''| `improved.py` | 7 | `create` | openai |'',
          [],
          ''> Fix: `pip install assay-ai && assay patch .` to auto-instrument these sites.'',
          [],
          ''---'',
          ''*Generated by [Assay Scorecard](https://haserjian.github.io/assay-scorecard/) | '' @
          ''[Methodology](https://haserjian.github.io/assay-scorecard/methodology.html)*'']
   in render_markdown (\<lambda>v. []) delta new_sites = Inr t \<and>
      py_gt0 (m_delta (score delta)) = Inr False \<and>
      sublist ''improved'' t"
  by (simp add: render_eval sublist_Cons_right)

end
